theory Spec2Isabelle
  imports Complex_Main "HOL-Library.AList"
begin

section \<open>JavaScript values and plain objects\<close>

text \<open>
  The options argument of \<^verbatim>\<open>ConnectionConfig\<close> is an untyped JavaScript value. A value
  is one of the JSON-like shapes below; a plain object is the list of its own enumerable
  data properties, in the order \<^verbatim>\<open>for (k in obj)\<close> enumerates them. A finite number
  is a rational (every finite double is one; \<^verbatim>\<open>0.25\<close> is \<open>1/4\<close>).
  Reading a property finds the binding of the key, an absent key reads
  \<^verbatim>\<open>undefined\<close>; writing replaces the binding in place or appends a new one.
  No value of this type is a function: an own property that shadows an inherited method
  holds something that cannot be called.
\<close>

datatype jsval =
    JUndefined
  | JNull
  | JBool bool
  | JNum rat
  | JStr string
  | JArr "jsval list"
  | JObj "(string \<times> jsval) list"

type_synonym jsobj = "(string \<times> jsval) list"

definition prop_get :: "jsobj \<Rightarrow> string \<Rightarrow> jsval" where
  "prop_get obj k = (case map_of obj k of None \<Rightarrow> JUndefined | Some v \<Rightarrow> v)"

definition prop_set :: "jsobj \<Rightarrow> string \<Rightarrow> jsval \<Rightarrow> jsobj" where
  "prop_set obj k v = AList.update k v obj"

definition hasOwnProperty :: "jsobj \<Rightarrow> string \<Rightarrow> bool" where
  "hasOwnProperty obj k = (k \<in> set (map fst obj))"

definition keys :: "jsobj \<Rightarrow> string list" where
  "keys obj = remdups (map fst obj)"

definition arr_index :: "jsval list \<Rightarrow> int \<Rightarrow> jsval" where
  "arr_index xs i = (if 0 \<le> i \<and> i < int (length xs) then xs ! nat i else JUndefined)"

text \<open>\<^verbatim>\<open>String.prototype.indexOf\<close> for a one-character needle: the position of the first
  occurrence, or \<open>-1\<close>.\<close>

fun indexOf :: "string \<Rightarrow> char \<Rightarrow> int" where
  "indexOf [] c = - 1"
| "indexOf (x # xs) c =
     (if x = c then 0 else (let i = indexOf xs c in if i < 0 then - 1 else i + 1))"

text \<open>\<^verbatim>\<open>s.substring(a)\<close> and \<^verbatim>\<open>s.substring(0, b)\<close> for indices within the string.\<close>

definition substring_from :: "string \<Rightarrow> int \<Rightarrow> string" where
  "substring_from s a = drop (nat a) s"

definition substring_to :: "string \<Rightarrow> int \<Rightarrow> string" where
  "substring_to s b = take (nat b) s"

section \<open>The modules \<^verbatim>\<open>../util\<close>, \<^verbatim>\<open>../errors\<close> and \<^verbatim>\<open>./result/data_types\<close>\<close>

text \<open>Modelled from the spec: \<^verbatim>\<open>Util.exists\<close>, the test the constructor uses for a field
  being present; a field is absent when it is \<^verbatim>\<open>undefined\<close> or \<^verbatim>\<open>null\<close>.\<close>

definition Util_exists :: "jsval \<Rightarrow> bool" where
  "Util_exists v = (v \<noteq> JUndefined \<and> v \<noteq> JNull)"

text \<open>Modelled from the spec: \<^verbatim>\<open>Util.isString\<close>, \<^verbatim>\<open>Util.isObject\<close>,
  \<^verbatim>\<open>Util.isNumber\<close>, \<^verbatim>\<open>Util.isBoolean\<close> and \<^verbatim>\<open>Util.isArray\<close>, the type tests behind
  "string", "mapping", "number", "boolean" and "array" in the table of recognised fields.\<close>

fun Util_isString :: "jsval \<Rightarrow> bool" where
  "Util_isString (JStr s) = True"
| "Util_isString v = False"

fun Util_isObject :: "jsval \<Rightarrow> bool" where
  "Util_isObject (JObj ps) = True"
| "Util_isObject v = False"

fun Util_isNumber :: "jsval \<Rightarrow> bool" where
  "Util_isNumber (JNum r) = True"
| "Util_isNumber v = False"

fun Util_isBoolean :: "jsval \<Rightarrow> bool" where
  "Util_isBoolean (JBool b) = True"
| "Util_isBoolean v = False"

fun Util_isArray :: "jsval \<Rightarrow> bool" where
  "Util_isArray (JArr xs) = True"
| "Util_isArray v = False"

text \<open>The string held by a string value, the properties of an object and the elements of
  an array; each is read only behind the matching type test.\<close>

fun str_of :: "jsval \<Rightarrow> string" where
  "str_of (JStr s) = s"
| "str_of v = []"

fun props_of :: "jsval \<Rightarrow> jsobj" where
  "props_of (JObj ps) = ps"
| "props_of v = []"

fun elems_of :: "jsval \<Rightarrow> jsval list" where
  "elems_of (JArr xs) = xs"
| "elems_of v = []"

text \<open>Modelled from the spec: \<^verbatim>\<open>Util.format('https://%s%s.snowflakecomputing.com', a, r)\<close>,
  the derived-URL format with two strings substituted.\<close>

definition Util_format_url :: "string \<Rightarrow> string \<Rightarrow> string" where
  "Util_format_url account region = ''https://'' @ account @ region @ ''.snowflakecomputing.com''"

text \<open>The error codes the constructor names.\<close>

datatype error_code =
    ERR_CONN_CREATE_MISSING_OPTIONS
  | ERR_CONN_CREATE_INVALID_OPTIONS
  | ERR_CONN_CREATE_MISSING_USERNAME
  | ERR_CONN_CREATE_INVALID_USERNAME
  | ERR_CONN_CREATE_MISSING_PASSWORD
  | ERR_CONN_CREATE_INVALID_PASSWORD
  | ERR_CONN_CREATE_MISSING_ACCOUNT
  | ERR_CONN_CREATE_INVALID_ACCOUNT
  | ERR_CONN_CREATE_INVALID_REGION
  | ERR_CONN_CREATE_MISSING_ACCESS_URL
  | ERR_CONN_CREATE_INVALID_ACCESS_URL
  | ERR_CONN_CREATE_MISSING_PROXY_HOST
  | ERR_CONN_CREATE_INVALID_PROXY_HOST
  | ERR_CONN_CREATE_MISSING_PROXY_PORT
  | ERR_CONN_CREATE_INVALID_PROXY_PORT
  | ERR_CONN_CREATE_INVALID_WAREHOUSE
  | ERR_CONN_CREATE_INVALID_DATABASE
  | ERR_CONN_CREATE_INVALID_SCHEMA
  | ERR_CONN_CREATE_INVALID_ROLE
  | ERR_CONN_CREATE_INVALID_STREAM_RESULT
  | ERR_CONN_CREATE_INVALID_FETCH_AS_STRING
  | ERR_CONN_CREATE_INVALID_FETCH_AS_STRING_VALUES

text \<open>Modelled from the spec: the three kinds of failure of the error taxonomy, raised by
  \<^verbatim>\<open>Errors.checkArgumentExists\<close> (missing required field),
  \<^verbatim>\<open>Errors.checkArgumentValid\<close> (invalid type or value; it may carry the offending
  value, which the source passes through \<^verbatim>\<open>JSON.stringify\<close>) and
  \<^verbatim>\<open>Errors.assertInternal\<close> (internal consistency). \<open>TypeError\<close> is the error the
  JavaScript runtime throws when a value that is no function is called. A thrown error
  is \<open>Inl\<close>.\<close>

datatype error =
    MissingParameterError error_code
  | InvalidParameterError error_code "jsval option"
  | InternalAssertError
  | TypeError

definition checkArgumentExists :: "bool \<Rightarrow> error_code \<Rightarrow> error + unit" where
  "checkArgumentExists c code = (if c then Inr () else Inl (MissingParameterError code))"

definition checkArgumentValid :: "bool \<Rightarrow> error_code \<Rightarrow> jsval option \<Rightarrow> error + unit" where
  "checkArgumentValid c code arg = (if c then Inr () else Inl (InvalidParameterError code arg))"

definition assertInternal :: "bool \<Rightarrow> error + unit" where
  "assertInternal c = (if c then Inr () else Inl InternalAssertError)"

text \<open>Statements in sequence: the first check that throws ends the run.\<close>

fun checks :: "(error + unit) list \<Rightarrow> error + unit" where
  "checks [] = Inr ()"
| "checks (Inl e # cs) = Inl e"
| "checks (Inr u # cs) = checks cs"

text \<open>
  What the constructor takes from its surroundings and is not under the source tree:
  \<^verbatim>\<open>Util.isNode()\<close>, the three numeric validators of \<^verbatim>\<open>Util.number\<close> and
  \<^verbatim>\<open>NativeTypes.findInvalidValue\<close>. They are parameters of the model.
\<close>

record deps =
  isNode :: bool
  isNonNegativeInteger :: "jsval \<Rightarrow> bool"
  isPositiveInteger :: "jsval \<Rightarrow> bool"
  isNonNegative :: "jsval \<Rightarrow> bool"
  findInvalidValue :: "jsval list \<Rightarrow> int"

text \<open>Modelled from the spec: the validators positive-integer, non-negative-integer and
  non-negative-number of \<^verbatim>\<open>Util.number\<close>.\<close>

fun number_isPositiveInteger :: "jsval \<Rightarrow> bool" where
  "number_isPositiveInteger (JNum r) = (r = of_int \<lfloor>r\<rfloor> \<and> 0 < r)"
| "number_isPositiveInteger v = False"

fun number_isNonNegativeInteger :: "jsval \<Rightarrow> bool" where
  "number_isNonNegativeInteger (JNum r) = (r = of_int \<lfloor>r\<rfloor> \<and> 0 \<le> r)"
| "number_isNonNegativeInteger v = False"

fun number_isNonNegative :: "jsval \<Rightarrow> bool" where
  "number_isNonNegative (JNum r) = (0 \<le> r)"
| "number_isNonNegative v = False"

text \<open>Modelled from the spec: \<^verbatim>\<open>NativeTypes.findInvalidValue\<close>, the index of the first
  element that is not one of the recognised native-type-name strings, or \<open>-1\<close>. The
  recognised names are a parameter.\<close>

fun findInvalidValue_from :: "string list \<Rightarrow> int \<Rightarrow> jsval list \<Rightarrow> int" where
  "findInvalidValue_from names i [] = - 1"
| "findInvalidValue_from names i (x # xs) =
     (if Util_isString x \<and> str_of x \<in> set names
      then findInvalidValue_from names (i + 1) xs else i)"

definition spec_deps :: "bool \<Rightarrow> string list \<Rightarrow> deps" where
  "spec_deps node names =
     \<lparr> isNode = node,
       isNonNegativeInteger = number_isNonNegativeInteger,
       isPositiveInteger = number_isPositiveInteger,
       isNonNegative = number_isNonNegative,
       findInvalidValue = findInvalidValue_from names 0 \<rparr>"

section \<open>The parameter catalog (\<^verbatim>\<open>createParameters\<close>)\<close>

record parameter =
  p_name :: string
  p_defaultValue :: jsval
  p_external :: bool
  p_validate :: "jsval \<Rightarrow> bool"
  p_value :: jsval

definition PARAM_TIMEOUT :: string where
  "PARAM_TIMEOUT = ''timeout''"
definition PARAM_RESULT_PREFETCH :: string where
  "PARAM_RESULT_PREFETCH = ''resultPrefetch''"
definition PARAM_RESULT_STREAM_INTERRUPTS :: string where
  "PARAM_RESULT_STREAM_INTERRUPTS = ''resultStreamInterrupts''"
definition PARAM_RESULT_CHUNK_CACHE_SIZE :: string where
  "PARAM_RESULT_CHUNK_CACHE_SIZE = ''resultChunkCacheSize''"
definition PARAM_RESULT_PROCESSING_BATCH_SIZE :: string where
  "PARAM_RESULT_PROCESSING_BATCH_SIZE = ''resultProcessingBatchSize''"
definition PARAM_RESULT_PROCESSING_BATCH_DURATION :: string where
  "PARAM_RESULT_PROCESSING_BATCH_DURATION = ''resultProcessingBatchDuration''"
definition PARAM_ROW_STREAM_HIGH_WATER_MARK :: string where
  "PARAM_ROW_STREAM_HIGH_WATER_MARK = ''rowStreamHighWaterMark''"
definition PARAM_RETRY_LARGE_RESULT_SET_MAX_NUM_RETRIES :: string where
  "PARAM_RETRY_LARGE_RESULT_SET_MAX_NUM_RETRIES = ''largeResultSetRetryMaxNumRetries''"
definition PARAM_RETRY_LARGE_RESULT_SET_MAX_SLEEP_TIME :: string where
  "PARAM_RETRY_LARGE_RESULT_SET_MAX_SLEEP_TIME = ''largeResultSetRetryMaxSleepTime''"
definition PARAM_RETRY_SF_MAX_NUM_RETRIES :: string where
  "PARAM_RETRY_SF_MAX_NUM_RETRIES = ''sfRetryMaxNumRetries''"
definition PARAM_RETRY_SF_STARTING_SLEEP_TIME :: string where
  "PARAM_RETRY_SF_STARTING_SLEEP_TIME = ''sfRetryStartingSleepTime''"
definition PARAM_RETRY_SF_MAX_SLEEP_TIME :: string where
  "PARAM_RETRY_SF_MAX_SLEEP_TIME = ''sfRetryMaxSleepTime''"

text \<open>An entry as the array literal writes it: \<^verbatim>\<open>external\<close> is \<^verbatim>\<open>true\<close> or left out
  (falsy), and \<^verbatim>\<open>value\<close> is not set yet.\<close>

definition entry :: "string \<Rightarrow> jsval \<Rightarrow> bool \<Rightarrow> (jsval \<Rightarrow> bool) \<Rightarrow> parameter" where
  "entry n d e f =
     \<lparr> p_name = n, p_defaultValue = d, p_external = e, p_validate = f, p_value = JUndefined \<rparr>"

definition createParameters :: "deps \<Rightarrow> parameter list" where
  "createParameters D =
     [ entry PARAM_TIMEOUT (JNum (90 * 1000)) True (isPositiveInteger D),
       entry PARAM_RESULT_PREFETCH (JNum 2) True (isPositiveInteger D),
       entry PARAM_RESULT_STREAM_INTERRUPTS (JNum 3) False (isPositiveInteger D),
       entry PARAM_RESULT_CHUNK_CACHE_SIZE (JNum 1) False (isPositiveInteger D),
       entry PARAM_RESULT_PROCESSING_BATCH_SIZE (JNum 1000) False (isPositiveInteger D),
       entry PARAM_RESULT_PROCESSING_BATCH_DURATION (JNum 100) False (isPositiveInteger D),
       entry PARAM_ROW_STREAM_HIGH_WATER_MARK (JNum 10) False (isPositiveInteger D),
       entry PARAM_RETRY_LARGE_RESULT_SET_MAX_NUM_RETRIES (JNum 10) False
         (isNonNegativeInteger D),
       entry PARAM_RETRY_LARGE_RESULT_SET_MAX_SLEEP_TIME (JNum 16) False
         (isNonNegativeInteger D),
       entry PARAM_RETRY_SF_MAX_NUM_RETRIES (JNum 1000) False (isNonNegativeInteger D),
       entry PARAM_RETRY_SF_STARTING_SLEEP_TIME (JNum (1 / 4)) False (isNonNegative D),
       entry PARAM_RETRY_SF_MAX_SLEEP_TIME (JNum 16) False (isNonNegative D) ]"

section \<open>The constructor \<^verbatim>\<open>ConnectionConfig\<close>\<close>

text \<open>Lines 38 to 101: the credential checks, the split of a dotted account and the
  derivation of the access URL. The block rewrites \<^verbatim>\<open>options\<close>; it returns the
  rewritten object.\<close>

definition split_account :: "jsobj \<Rightarrow> jsobj" where
  "split_account options =
     (let account = str_of (prop_get options ''account'');
          dotPos = indexOf account CHR ''.''
      in if dotPos > 0 \<and> dotPos < int (length account) - 1
         then prop_set (prop_set options ''region'' (JStr (substring_from account (dotPos + 1))))
                ''account'' (JStr (substring_to account dotPos))
         else options)"

definition derive_accessUrl :: "jsobj \<Rightarrow> error + jsobj" where
  "derive_accessUrl options =
     (if \<not> Util_exists (prop_get options ''accessUrl'')
      then
        (if Util_exists (prop_get options ''region'')
         then
           (if \<not> Util_isString (prop_get options ''region'')
            then Inl (InvalidParameterError ERR_CONN_CREATE_INVALID_REGION None)
            else if prop_get options ''region'' = JStr ''us-west-2''
            then
              (let options' = prop_set options ''region'' (JStr '''')
               in Inr (prop_set options' ''accessUrl''
                    (JStr (Util_format_url (str_of (prop_get options' ''account'')) ''''))))
            else
              Inr (prop_set options ''accessUrl''
                    (JStr (Util_format_url (str_of (prop_get options ''account''))
                       (''.'' @ str_of (prop_get options ''region''))))))
         else
           Inr (prop_set options ''accessUrl''
                 (JStr (Util_format_url (str_of (prop_get options ''account'')) ''''))))
      else Inr options)"

definition credentials_block :: "jsobj \<Rightarrow> error + jsobj" where
  "credentials_block options =
     (case checks
        [ checkArgumentExists (Util_exists (prop_get options ''username''))
            ERR_CONN_CREATE_MISSING_USERNAME,
          checkArgumentValid (Util_isString (prop_get options ''username''))
            ERR_CONN_CREATE_INVALID_USERNAME None,
          checkArgumentExists (Util_exists (prop_get options ''password''))
            ERR_CONN_CREATE_MISSING_PASSWORD,
          checkArgumentValid (Util_isString (prop_get options ''password''))
            ERR_CONN_CREATE_INVALID_PASSWORD None,
          checkArgumentExists (Util_exists (prop_get options ''account''))
            ERR_CONN_CREATE_MISSING_ACCOUNT,
          checkArgumentValid (Util_isString (prop_get options ''account''))
            ERR_CONN_CREATE_INVALID_ACCOUNT None ]
      of Inl e \<Rightarrow> Inl e
       | Inr u \<Rightarrow> derive_accessUrl (split_account options))"

text \<open>Lines 103 to 109: the access URL is required whatever the flag.\<close>

definition accessUrl_block :: "jsobj \<Rightarrow> error + unit" where
  "accessUrl_block options =
     checks
       [ checkArgumentExists (Util_exists (prop_get options ''accessUrl''))
           ERR_CONN_CREATE_MISSING_ACCESS_URL,
         checkArgumentValid (Util_isString (prop_get options ''accessUrl''))
           ERR_CONN_CREATE_INVALID_ACCESS_URL None ]"

text \<open>Lines 111 to 139: the proxy settings; \<^verbatim>\<open>proxy\<close> stays \<^verbatim>\<open>undefined\<close> unless the
  context is Node and one of the two fields is given.\<close>

definition proxy_block :: "deps \<Rightarrow> jsobj \<Rightarrow> error + jsval" where
  "proxy_block D options =
     (let proxyHost = prop_get options ''proxyHost'';
          proxyPort = prop_get options ''proxyPort''
      in if isNode D \<and> (Util_exists proxyHost \<or> Util_exists proxyPort)
         then
           (case checks
              [ checkArgumentExists (Util_exists proxyHost) ERR_CONN_CREATE_MISSING_PROXY_HOST,
                checkArgumentValid (Util_isString proxyHost)
                  ERR_CONN_CREATE_INVALID_PROXY_HOST None,
                checkArgumentExists (Util_exists proxyPort) ERR_CONN_CREATE_MISSING_PROXY_PORT,
                checkArgumentValid (Util_isNumber proxyPort)
                  ERR_CONN_CREATE_INVALID_PROXY_PORT None ]
            of Inl e \<Rightarrow> Inl e
             | Inr u \<Rightarrow> Inr (JObj [(''host'', proxyHost), (''port'', proxyPort)]))
         else Inr JUndefined)"

text \<open>Lines 141 to 195: the optional scalar fields and \<^verbatim>\<open>fetchAsString\<close>. A check
  inside \<^verbatim>\<open>if (Util.exists(x))\<close> holds trivially when \<^verbatim>\<open>x\<close> is absent.\<close>

definition optional_block :: "deps \<Rightarrow> jsobj \<Rightarrow> error + unit" where
  "optional_block D options =
     (let warehouse = prop_get options ''warehouse'';
          database = prop_get options ''database'';
          schema = prop_get options ''schema'';
          role = prop_get options ''role'';
          streamResult = prop_get options ''streamResult'';
          fetchAsString = prop_get options ''fetchAsString'';
          invalidValueIndex = findInvalidValue D (elems_of fetchAsString)
      in checks
        [ checkArgumentValid (Util_exists warehouse \<longrightarrow> Util_isString warehouse)
            ERR_CONN_CREATE_INVALID_WAREHOUSE None,
          checkArgumentValid (Util_exists database \<longrightarrow> Util_isString database)
            ERR_CONN_CREATE_INVALID_DATABASE None,
          checkArgumentValid (Util_exists schema \<longrightarrow> Util_isString schema)
            ERR_CONN_CREATE_INVALID_SCHEMA None,
          checkArgumentValid (Util_exists role \<longrightarrow> Util_isString role)
            ERR_CONN_CREATE_INVALID_ROLE None,
          checkArgumentValid (Util_exists streamResult \<longrightarrow> Util_isBoolean streamResult)
            ERR_CONN_CREATE_INVALID_STREAM_RESULT None,
          checkArgumentValid (Util_exists fetchAsString \<longrightarrow> Util_isArray fetchAsString)
            ERR_CONN_CREATE_INVALID_FETCH_AS_STRING None,
          checkArgumentValid (Util_exists fetchAsString \<longrightarrow> invalidValueIndex = - 1)
            ERR_CONN_CREATE_INVALID_FETCH_AS_STRING_VALUES
            (Some (arr_index (elems_of fetchAsString) invalidValueIndex)) ])"

text \<open>Lines 200 to 211: the client-info argument, checked by internal assertions.\<close>

definition clientInfo_block :: "jsval \<Rightarrow> error + jsval \<times> jsval" where
  "clientInfo_block clientInfo =
     (if Util_exists clientInfo
      then
        (case checks
           [ assertInternal (Util_isObject clientInfo),
             assertInternal (Util_isString (prop_get (props_of clientInfo) ''version'')),
             assertInternal (Util_isObject (prop_get (props_of clientInfo) ''environment'')) ]
         of Inl e \<Rightarrow> Inl e
          | Inr u \<Rightarrow> Inr (prop_get (props_of clientInfo) ''version'',
                          prop_get (props_of clientInfo) ''environment''))
      else Inr (JUndefined, JUndefined))"

text \<open>Lines 325 to 339: the map from parameter name to parameter, each value set to the
  default.\<close>

fun init_parameters :: "parameter list \<Rightarrow> (string \<rightharpoonup> parameter) \<Rightarrow> (string \<rightharpoonup> parameter)" where
  "init_parameters [] mapParameters = mapParameters"
| "init_parameters (parameter # rest) mapParameters =
     init_parameters rest
       (mapParameters(p_name parameter \<mapsto> parameter\<lparr>p_value := p_defaultValue parameter\<rparr>))"

text \<open>The call \<^verbatim>\<open>options.hasOwnProperty(propertyName)\<close> of line 345. The method is
  looked up on the caller's object: an own property named \<^verbatim>\<open>hasOwnProperty\<close> shadows
  the method of \<^verbatim>\<open>Object.prototype\<close>, its value is no function, and the call throws
  a \<^verbatim>\<open>TypeError\<close>. Without such a property the inherited method answers.\<close>

definition call_hasOwnProperty :: "jsobj \<Rightarrow> string \<Rightarrow> error + bool" where
  "call_hasOwnProperty obj k =
     (if hasOwnProperty obj ''hasOwnProperty'' then Inl TypeError
      else Inr (hasOwnProperty obj k))"

text \<open>Lines 341 to 357: the loop over the property names of \<^verbatim>\<open>options\<close>. The map
  \<^verbatim>\<open>mapParameters\<close> is the constructor's own object and has the parameter names as
  its only keys, so \<^verbatim>\<open>mapParameters.hasOwnProperty\<close> is the inherited method.\<close>

fun override_parameters ::
  "string list \<Rightarrow> jsobj \<Rightarrow> (string \<rightharpoonup> parameter) \<Rightarrow> error + (string \<rightharpoonup> parameter)" where
  "override_parameters [] options mapParameters = Inr mapParameters"
| "override_parameters (propertyName # rest) options mapParameters =
     (case call_hasOwnProperty options propertyName of
        Inl e \<Rightarrow> Inl e
      | Inr own \<Rightarrow>
          (case mapParameters propertyName of
             Some parameter \<Rightarrow>
               (if own
                   \<and> p_external parameter
                   \<and> p_validate parameter (prop_get options propertyName)
                then override_parameters rest options
                       (mapParameters(propertyName \<mapsto>
                          parameter\<lparr>p_value := prop_get options propertyName\<rparr>))
                else override_parameters rest options mapParameters)
           | None \<Rightarrow> override_parameters rest options mapParameters))"

definition parameters_block :: "deps \<Rightarrow> jsobj \<Rightarrow> error + (string \<rightharpoonup> parameter)" where
  "parameters_block D options =
     override_parameters (keys options) options
       (init_parameters (createParameters D) Map.empty)"

text \<open>The constructed object: the closure variables behind the accessors and the fields
  stored on \<^verbatim>\<open>this\<close>.\<close>

record connection_config =
  qaMode :: jsval
  proxy :: jsval
  warehouse :: jsval
  database :: jsval
  schema :: jsval
  role :: jsval
  streamResult :: jsval
  fetchAsString :: jsval
  clientVersion :: jsval
  clientEnvironment :: jsval
  username :: jsval
  password :: jsval
  accessUrl :: jsval
  account :: jsval
  mapParameters :: "string \<rightharpoonup> parameter"

text \<open>Lines 103 to 361: everything after the credential block, on the options object
  as that block leaves it.\<close>

definition finish_construction ::
  "deps \<Rightarrow> jsobj \<Rightarrow> jsval \<Rightarrow> jsval \<Rightarrow> error + connection_config \<times> jsobj" where
  "finish_construction D options qaMode' clientInfo =
     (case accessUrl_block options of Inl e \<Rightarrow> Inl e | Inr u \<Rightarrow>
      (case proxy_block D options of Inl e \<Rightarrow> Inl e | Inr proxy' \<Rightarrow>
       (case optional_block D options of Inl e \<Rightarrow> Inl e | Inr u \<Rightarrow>
        (case clientInfo_block clientInfo of Inl e \<Rightarrow> Inl e
         | Inr (clientVersion', clientEnvironment') \<Rightarrow>
         (case parameters_block D options of Inl e \<Rightarrow> Inl e | Inr mapParameters' \<Rightarrow>
           Inr (\<lparr> qaMode = qaMode',
                  proxy = proxy',
                  warehouse = prop_get options ''warehouse'',
                  database = prop_get options ''database'',
                  schema = prop_get options ''schema'',
                  role = prop_get options ''role'',
                  streamResult = prop_get options ''streamResult'',
                  fetchAsString = prop_get options ''fetchAsString'',
                  clientVersion = clientVersion',
                  clientEnvironment = clientEnvironment',
                  username = prop_get options ''username'',
                  password = prop_get options ''password'',
                  accessUrl = prop_get options ''accessUrl'',
                  account = prop_get options ''account'',
                  mapParameters = mapParameters' \<rparr>,
                options))))))"

text \<open>Lines 23 to 27: validation is on when the flag is \<^verbatim>\<open>true\<close> or left out
  (\<open>None\<close>).\<close>

definition validation_on :: "bool option \<Rightarrow> bool" where
  "validation_on validateCredentials =
     (case validateCredentials of None \<Rightarrow> True | Some b \<Rightarrow> b)"

text \<open>Lines 37 to 101: the options object after the credential block, which runs only
  when validation is on.\<close>

definition after_credentials :: "bool option \<Rightarrow> jsobj \<Rightarrow> error + jsobj" where
  "after_credentials validateCredentials options =
     (if validation_on validateCredentials then credentials_block options else Inr options)"

text \<open>The whole constructor. The result is the error thrown, or the new object together
  with the caller's options object as the constructor leaves it.\<close>

definition ConnectionConfig ::
  "deps \<Rightarrow> jsval \<Rightarrow> bool option \<Rightarrow> jsval \<Rightarrow> jsval \<Rightarrow> error + connection_config \<times> jsobj" where
  "ConnectionConfig D options validateCredentials qaMode' clientInfo =
     (case checks
        [ checkArgumentExists (Util_exists options) ERR_CONN_CREATE_MISSING_OPTIONS,
          checkArgumentValid (Util_isObject options) ERR_CONN_CREATE_INVALID_OPTIONS None ]
      of Inl e \<Rightarrow> Inl e | Inr u \<Rightarrow>
      (case after_credentials validateCredentials (props_of options)
       of Inl e \<Rightarrow> Inl e
        | Inr options' \<Rightarrow> finish_construction D options' qaMode' clientInfo))"

section \<open>Methods of the constructed object\<close>

definition getProxy :: "connection_config \<Rightarrow> jsval" where
  "getProxy this = proxy this"

definition clearCredentials :: "connection_config \<Rightarrow> connection_config" where
  "clearCredentials this = this\<lparr>password := JNull\<rparr>"

text \<open>\<^verbatim>\<open>_getParameterValue\<close>: the value of the named parameter, \<^verbatim>\<open>undefined\<close> when
  the map has no such parameter. The method has no throwing path; its result type still
  has room for an error, as every operation's does.\<close>

definition getParameterValue :: "connection_config \<Rightarrow> string \<Rightarrow> error + jsval" where
  "getParameterValue this parameterName =
     (case mapParameters this parameterName of
        Some parameter \<Rightarrow> Inr (p_value parameter)
      | None \<Rightarrow> Inr JUndefined)"

definition getTimeout :: "connection_config \<Rightarrow> error + jsval" where
  "getTimeout this = getParameterValue this PARAM_TIMEOUT"

definition getResultPrefetch :: "connection_config \<Rightarrow> error + jsval" where
  "getResultPrefetch this = getParameterValue this PARAM_RESULT_PREFETCH"

definition getResultStreamInterrupts :: "connection_config \<Rightarrow> error + jsval" where
  "getResultStreamInterrupts this = getParameterValue this PARAM_RESULT_STREAM_INTERRUPTS"

section \<open>Notions used to state the properties\<close>

text \<open>The thrown error of a run, if any, the constructed object of a run, and the
  result of a method called on the object a run constructs.\<close>

fun failure :: "error + 'a \<Rightarrow> error option" where
  "failure (Inl e) = Some e"
| "failure (Inr x) = None"

fun constructed :: "error + connection_config \<times> jsobj \<Rightarrow> error + connection_config" where
  "constructed (Inl e) = Inl e"
| "constructed (Inr (this, options)) = Inr this"

fun call :: "(connection_config \<Rightarrow> 'a) \<Rightarrow> error + connection_config \<times> jsobj \<Rightarrow> error + 'a" where
  "call f (Inl e) = Inl e"
| "call f (Inr (this, options)) = Inr (f this)"

fun call_getParameterValue ::
  "string \<Rightarrow> error + connection_config \<times> jsobj \<Rightarrow> error + jsval" where
  "call_getParameterValue n (Inl e) = Inl e"
| "call_getParameterValue n (Inr (this, options)) = getParameterValue this n"

text \<open>The first dot of a string is at position \<open>p\<close>.\<close>

definition first_dot_at :: "string \<Rightarrow> nat \<Rightarrow> bool" where
  "first_dot_at s p = (p < length s \<and> s ! p = CHR ''.'' \<and> CHR ''.'' \<notin> set (take p s))"

text \<open>The account has a dot to split at: its first dot is neither the first nor the
  last character.\<close>

definition splits_at :: "string \<Rightarrow> nat \<Rightarrow> bool" where
  "splits_at s p = (first_dot_at s p \<and> 0 < p \<and> p + 1 < length s)"

text \<open>The subdomain segment the specification gives for a region: empty for an absent
  region and for \<^verbatim>\<open>us-west-2\<close>, a dot and the region otherwise.\<close>

definition subdomain_of :: "jsval \<Rightarrow> string" where
  "subdomain_of region =
     (if \<not> Util_exists region \<or> region = JStr ''us-west-2'' then [] else ''.'' @ str_of region)"

text \<open>The entry of a catalog with a given name.\<close>

fun lookup_parameter :: "parameter list \<Rightarrow> string \<Rightarrow> parameter option" where
  "lookup_parameter [] n = None"
| "lookup_parameter (p # ps) n = (if p_name p = n then Some p else lookup_parameter ps n)"

text \<open>The resolution of overrides as the specification words it: iterate the catalog in
  declaration order; for each entry whose name also appears in the options, take the
  supplied value if the entry is externally overridable and its validator accepts the
  value; otherwise keep the default. The result lists name and final value.\<close>

fun spec_catalog_resolution :: "parameter list \<Rightarrow> jsobj \<Rightarrow> (string \<times> jsval) list" where
  "spec_catalog_resolution [] options = []"
| "spec_catalog_resolution (declared # catalog) options =
     (p_name declared,
      if hasOwnProperty options (p_name declared) \<and> p_external declared
           \<and> p_validate declared (prop_get options (p_name declared))
      then prop_get options (p_name declared)
      else p_defaultValue declared) # spec_catalog_resolution catalog options"



text \<open>Two objects agree on a set of keys: each key is bound in both to the same value,
  or in neither.\<close>

definition agree :: "string set \<Rightarrow> jsobj \<Rightarrow> jsobj \<Rightarrow> bool" where
  "agree K a b = (\<forall>k\<in>K. map_of a k = map_of b k)"

text \<open>The keys the constructor reads by name, apart from the two proxy fields and the
  parameter names.\<close>

definition config_keys :: "string set" where
  "config_keys =
     {''username'', ''password'', ''account'', ''region'', ''accessUrl'', ''warehouse'',
      ''database'', ''schema'', ''role'', ''streamResult'', ''fetchAsString'',
      ''hasOwnProperty''}"

definition proxy_keys :: "string set" where
  "proxy_keys = {''proxyHost'', ''proxyPort''}"

text \<open>An entry with its override applied, as the loop leaves it.\<close>

definition resolved :: "jsobj \<Rightarrow> parameter \<Rightarrow> parameter" where
  "resolved options p =
     (if hasOwnProperty options (p_name p) \<and> p_external p
         \<and> p_validate p (prop_get options (p_name p))
      then p\<lparr>p_value := prop_get options (p_name p)\<rparr> else p)"

definition with_default :: "parameter \<Rightarrow> parameter" where
  "with_default p = p\<lparr>p_value := p_defaultValue p\<rparr>"

text \<open>The parameter map the two loops leave when the second one does not throw.\<close>

definition resolved_map :: "deps \<Rightarrow> jsobj \<Rightarrow> (string \<rightharpoonup> parameter)" where
  "resolved_map D options n =
     map_option (\<lambda>p. resolved options (with_default p))
       (lookup_parameter (createParameters D) n)"

section \<open>Facts about objects\<close>

lemma prop_get_set: "prop_get (prop_set obj k v) k' = (if k' = k then v else prop_get obj k')"
  by (simp add: prop_get_def prop_set_def update_conv')

lemma hasOwnProperty_map_of: "hasOwnProperty obj k = (map_of obj k \<noteq> None)"
  by (simp add: hasOwnProperty_def map_of_eq_None_iff)

lemma set_keys: "k \<in> set (keys obj) = hasOwnProperty obj k"
  by (simp add: keys_def hasOwnProperty_def)

lemma agree_refl: "agree K a a"
  by (simp add: agree_def)

lemma agree_sym: "agree K a b \<Longrightarrow> agree K b a"
  by (simp add: agree_def)

lemma agree_trans: "agree K a b \<Longrightarrow> agree K b c \<Longrightarrow> agree K a c"
  by (simp add: agree_def)

lemma agree_mono: "agree K a b \<Longrightarrow> L \<subseteq> K \<Longrightarrow> agree L a b"
  by (auto simp: agree_def)

lemma agree_UNIV: "agree UNIV a b = (map_of a = map_of b)"
  by (auto simp: agree_def)

lemma agree_get: "agree K a b \<Longrightarrow> k \<in> K \<Longrightarrow> prop_get a k = prop_get b k"
  by (simp add: agree_def prop_get_def)

lemma agree_hasOwn: "agree K a b \<Longrightarrow> k \<in> K \<Longrightarrow> hasOwnProperty a k = hasOwnProperty b k"
  by (simp add: agree_def hasOwnProperty_map_of)

lemma agree_set: "agree K a b \<Longrightarrow> agree K (prop_set a k v) (prop_set b k v)"
  by (simp add: agree_def prop_set_def update_conv')

lemma agree_set_left: "k \<notin> K \<Longrightarrow> agree K (prop_set a k v) a"
  by (auto simp: agree_def prop_set_def update_conv')

lemma prop_set_swap:
  "k \<noteq> k' \<Longrightarrow> agree K (prop_set (prop_set a k v) k' v') (prop_set (prop_set a k' v') k v)"
  by (auto simp: agree_def prop_set_def update_conv')

section \<open>Facts about \<open>indexOf\<close>\<close>

lemma indexOf_ge: "- 1 \<le> indexOf s c"
  by (induction s) (auto simp: Let_def)

lemma indexOf_none: "c \<notin> set s \<Longrightarrow> indexOf s c = - 1"
  by (induction s) (auto simp: Let_def)

lemma indexOf_first:
  "p < length s \<Longrightarrow> s ! p = c \<Longrightarrow> c \<notin> set (take p s) \<Longrightarrow> indexOf s c = int p"
proof (induction s arbitrary: p)
  case Nil
  then show ?case by simp
next
  case (Cons x xs)
  show ?case
  proof (cases p)
    case 0
    then show ?thesis using Cons.prems by simp
  next
    case (Suc q)
    then have "indexOf xs c = int q" and "x \<noteq> c"
      using Cons.prems Cons.IH [of q] by auto
    then show ?thesis using Suc by (simp add: Let_def)
  qed
qed

lemma indexOf_found:
  "0 \<le> indexOf s c \<Longrightarrow>
   nat (indexOf s c) < length s \<and> s ! nat (indexOf s c) = c
     \<and> c \<notin> set (take (nat (indexOf s c)) s)"
proof (induction s)
  case Nil
  then show ?case by simp
next
  case (Cons x xs)
  show ?case
  proof (cases "x = c")
    case True
    then show ?thesis by simp
  next
    case False
    then have pos: "0 \<le> indexOf xs c" using Cons.prems by (auto simp: Let_def split: if_splits)
    then have eq: "indexOf (x # xs) c = indexOf xs c + 1" using False by (simp add: Let_def)
    have n: "nat (indexOf xs c + 1) = Suc (nat (indexOf xs c))" using pos by simp
    show ?thesis using Cons.IH [OF pos] False unfolding eq n by simp
  qed
qed

lemma indexOf_splits_at: "splits_at s p \<Longrightarrow> indexOf s CHR ''.'' = int p"
  by (simp add: splits_at_def first_dot_at_def indexOf_first)

lemma splits_at_indexOf:
  "0 < indexOf s CHR ''.'' \<Longrightarrow> indexOf s CHR ''.'' < int (length s) - 1 \<Longrightarrow>
   splits_at s (nat (indexOf s CHR ''.''))"
  using indexOf_found [of s "CHR ''.''"] by (auto simp: splits_at_def first_dot_at_def)

lemma split_account_at:
  assumes "prop_get options ''account'' = JStr a" "splits_at a p"
  shows "split_account options =
     prop_set (prop_set options ''region'' (JStr (drop (Suc p) a))) ''account'' (JStr (take p a))"
proof -
  have i: "indexOf a CHR ''.'' = int p" using assms(2) by (rule indexOf_splits_at)
  have "0 < p" "p + 1 < length a" using assms(2) by (auto simp: splits_at_def)
  then show ?thesis using assms(1) i
    by (simp add: split_account_def Let_def substring_from_def substring_to_def nat_add_distrib)
qed

lemma split_account_none:
  assumes "prop_get options ''account'' = JStr a" "\<And>p. \<not> splits_at a p"
  shows "split_account options = options"
  using assms splits_at_indexOf [of a]
  by (auto simp: split_account_def Let_def)

section \<open>The blocks read the options object only through its bindings\<close>

lemma split_account_agree:
  "agree K a b \<Longrightarrow> ''account'' \<in> K \<Longrightarrow> agree K (split_account a) (split_account b)"
  by (simp add: split_account_def Let_def agree_set agree_get [of K a b])

lemma derive_accessUrl_agree:
  assumes "agree K a b" "''account'' \<in> K" "''region'' \<in> K" "''accessUrl'' \<in> K"
  shows "rel_sum (=) (agree K) (derive_accessUrl a) (derive_accessUrl b)"
  using assms
  by (simp add: derive_accessUrl_def Let_def agree_set agree_get [of K a b] prop_get_set)

lemma credentials_block_agree:
  assumes "agree K a b" "''username'' \<in> K" "''password'' \<in> K"
    "''account'' \<in> K" "''region'' \<in> K" "''accessUrl'' \<in> K"
  shows "rel_sum (=) (agree K) (credentials_block a) (credentials_block b)"
  using assms
  by (auto simp: credentials_block_def agree_get [of K a b] split_account_agree
      derive_accessUrl_agree split: sum.splits)

lemma after_credentials_agree:
  assumes "agree K a b" "config_keys \<subseteq> K"
  shows "rel_sum (=) (agree K) (after_credentials vc a) (after_credentials vc b)"
proof -
  have "''username'' \<in> K" "''password'' \<in> K" "''account'' \<in> K" "''region'' \<in> K"
    "''accessUrl'' \<in> K"
    using assms(2) by (auto simp: config_keys_def)
  then show ?thesis using assms(1)
    by (simp add: after_credentials_def credentials_block_agree)
qed

lemma accessUrl_block_agree:
  "agree K a b \<Longrightarrow> ''accessUrl'' \<in> K \<Longrightarrow> accessUrl_block a = accessUrl_block b"
  by (simp add: accessUrl_block_def agree_get [of K a b])

lemma proxy_block_agree:
  "agree K a b \<Longrightarrow> proxy_keys \<subseteq> K \<Longrightarrow> proxy_block D a = proxy_block D b"
  by (simp add: proxy_block_def proxy_keys_def agree_get [of K a b])

lemma proxy_block_not_node: "\<not> isNode D \<Longrightarrow> proxy_block D a = Inr JUndefined"
  by (simp add: proxy_block_def)

lemma optional_block_agree:
  "agree K a b \<Longrightarrow> ''warehouse'' \<in> K \<Longrightarrow> ''database'' \<in> K \<Longrightarrow> ''schema'' \<in> K \<Longrightarrow>
   ''role'' \<in> K \<Longrightarrow> ''streamResult'' \<in> K \<Longrightarrow> ''fetchAsString'' \<in> K \<Longrightarrow>
   optional_block D a = optional_block D b"
  by (simp add: optional_block_def agree_get [of K a b])

section \<open>The two loops over the parameters\<close>

lemma call_hasOwnProperty_inherited:
  "\<not> hasOwnProperty options ''hasOwnProperty'' \<Longrightarrow>
   call_hasOwnProperty options k = Inr (hasOwnProperty options k)"
  by (simp add: call_hasOwnProperty_def)

lemma override_parameters_shadowed:
  "hasOwnProperty options ''hasOwnProperty'' \<Longrightarrow> ks \<noteq> [] \<Longrightarrow>
   override_parameters ks options m = Inl TypeError"
  by (cases ks) (simp_all add: call_hasOwnProperty_def)

lemma override_parameters_apply:
  assumes "\<And>n p. m n = Some p \<Longrightarrow> p_name p = n"
    and "\<not> hasOwnProperty options ''hasOwnProperty''"
  shows "\<exists>m'. override_parameters ks options m = Inr m'
     \<and> (\<forall>n. m' n = (if n \<in> set ks then map_option (resolved options) (m n) else m n))"
  using assms(1)
proof (induction ks arbitrary: m)
  case Nil
  then show ?case by simp
next
  case (Cons k ks)
  note own = call_hasOwnProperty_inherited [OF assms(2)]
  show ?case
  proof (cases "m k")
    case None
    then have "override_parameters (k # ks) options m = override_parameters ks options m"
      by (simp add: own)
    then show ?thesis using Cons.IH [of m] Cons.prems None by auto
  next
    case (Some p)
    then have pk: "p_name p = k" using Cons.prems by simp
    show ?thesis
    proof (cases "hasOwnProperty options k \<and> p_external p \<and> p_validate p (prop_get options k)")
      case True
      let ?m = "m(k \<mapsto> p\<lparr>p_value := prop_get options k\<rparr>)"
      have inv: "\<And>n q. ?m n = Some q \<Longrightarrow> p_name q = n"
        using Cons.prems pk by (auto split: if_splits)
      have step: "override_parameters (k # ks) options m = override_parameters ks options ?m"
        using Some True by (simp add: own)
      obtain m' where m': "override_parameters ks options ?m = Inr m'"
        and v: "\<And>n. m' n = (if n \<in> set ks then map_option (resolved options) (?m n) else ?m n)"
        using Cons.IH [of ?m] inv by blast
      have r1: "resolved options p = p\<lparr>p_value := prop_get options k\<rparr>"
        using True pk by (simp add: resolved_def)
      have r2: "resolved options (p\<lparr>p_value := prop_get options k\<rparr>) =
          p\<lparr>p_value := prop_get options k\<rparr>"
        using True pk by (simp add: resolved_def)
      have "\<forall>n. m' n =
          (if n \<in> set (k # ks) then map_option (resolved options) (m n) else m n)"
        using Some by (simp add: v r1 r2)
      then show ?thesis using step m' by simp
    next
      case False
      then have step: "override_parameters (k # ks) options m = override_parameters ks options m"
        using Some by (auto simp: own)
      have r: "resolved options p = p"
        using False pk by (auto simp: resolved_def)
      obtain m' where m': "override_parameters ks options m = Inr m'"
        and v: "\<And>n. m' n = (if n \<in> set ks then map_option (resolved options) (m n) else m n)"
        using Cons.IH [of m] Cons.prems by blast
      have "\<forall>n. m' n =
          (if n \<in> set (k # ks) then map_option (resolved options) (m n) else m n)"
        using Some by (simp add: v r)
      then show ?thesis using step m' by simp
    qed
  qed
qed

lemma init_parameters_apply:
  "distinct (map p_name ps) \<Longrightarrow>
   init_parameters ps m n =
     (case lookup_parameter ps n of Some p \<Rightarrow> Some (with_default p) | None \<Rightarrow> m n)"
proof (induction ps arbitrary: m)
  case Nil
  then show ?case by simp
next
  case (Cons p ps)
  have "lookup_parameter ps (p_name p) = None"
    using Cons.prems by (induction ps) auto
  then show ?case using Cons by (auto simp: with_default_def split: option.splits)
qed

lemma lookup_parameter_name: "lookup_parameter ps n = Some p \<Longrightarrow> p_name p = n \<and> p \<in> set ps"
  by (induction ps) (auto split: if_splits)

lemma lookup_parameter_None: "lookup_parameter ps n = None \<longleftrightarrow> n \<notin> set (map p_name ps)"
  by (induction ps) auto

lemma resolved_not_own: "\<not> hasOwnProperty options (p_name p) \<Longrightarrow> resolved options p = p"
  by (simp add: resolved_def)

lemma createParameters_distinct: "distinct (map p_name (createParameters D))"
  by (simp add: createParameters_def entry_def PARAM_TIMEOUT_def PARAM_RESULT_PREFETCH_def
      PARAM_RESULT_STREAM_INTERRUPTS_def PARAM_RESULT_CHUNK_CACHE_SIZE_def
      PARAM_RESULT_PROCESSING_BATCH_SIZE_def PARAM_RESULT_PROCESSING_BATCH_DURATION_def
      PARAM_ROW_STREAM_HIGH_WATER_MARK_def PARAM_RETRY_LARGE_RESULT_SET_MAX_NUM_RETRIES_def
      PARAM_RETRY_LARGE_RESULT_SET_MAX_SLEEP_TIME_def PARAM_RETRY_SF_MAX_NUM_RETRIES_def
      PARAM_RETRY_SF_STARTING_SLEEP_TIME_def PARAM_RETRY_SF_MAX_SLEEP_TIME_def)

lemma resolved_map_Some:
  "resolved_map D options n = Some q \<Longrightarrow> p_name q = n"
  by (auto simp: resolved_map_def resolved_def with_default_def dest: lookup_parameter_name
      split: if_splits)

lemma parameters_block_unfold:
  "parameters_block D options =
     (if hasOwnProperty options ''hasOwnProperty'' then Inl TypeError
      else Inr (resolved_map D options))"
proof (cases "hasOwnProperty options ''hasOwnProperty''")
  case True
  then have "''hasOwnProperty'' \<in> set (keys options)" by (simp add: set_keys)
  then have "keys options \<noteq> []" by auto
  then show ?thesis using True
    by (simp add: parameters_block_def override_parameters_shadowed)
next
  case False
  let ?m = "init_parameters (createParameters D) Map.empty"
  have m: "?m k = map_option with_default (lookup_parameter (createParameters D) k)" for k
    by (simp add: init_parameters_apply [OF createParameters_distinct] split: option.splits)
  have inv: "\<And>k p. ?m k = Some p \<Longrightarrow> p_name p = k"
    unfolding m by (auto simp: with_default_def dest: lookup_parameter_name)
  obtain m' where m': "parameters_block D options = Inr m'"
    and v: "\<And>n. m' n =
      (if n \<in> set (keys options) then map_option (resolved options) (?m n) else ?m n)"
    unfolding parameters_block_def
    using override_parameters_apply [of ?m options "keys options", OF inv False] by blast
  have "m' n = resolved_map D options n" for n
  proof -
    have "m' n = map_option (resolved options) (?m n)"
    proof (cases "?m n")
      case None
      then show ?thesis by (simp add: v)
    next
      case (Some p)
      then have "p_name p = n" by (rule inv)
      then show ?thesis using Some by (auto simp: v set_keys resolved_not_own)
    qed
    then show ?thesis by (simp add: m resolved_map_def option.map_comp comp_def)
  qed
  then have "m' = resolved_map D options" by (rule ext)
  then show ?thesis using m' False by simp
qed

lemma resolved_agree:
  "agree K a b \<Longrightarrow> p_name p \<in> K \<Longrightarrow> resolved a p = resolved b p"
  by (simp add: resolved_def agree_get [of K a b] agree_hasOwn [of K a b])

lemma resolved_map_agree:
  assumes "agree K a b" "set (map p_name (createParameters D)) \<subseteq> K"
  shows "resolved_map D a = resolved_map D b"
proof
  fix n
  show "resolved_map D a n = resolved_map D b n"
  proof (cases "lookup_parameter (createParameters D) n")
    case None
    then show ?thesis by (simp add: resolved_map_def)
  next
    case (Some p)
    then have "p_name (with_default p) \<in> K"
      using assms(2) lookup_parameter_name [OF Some] by (auto simp: with_default_def)
    then show ?thesis using Some assms(1)
      by (simp add: resolved_map_def resolved_agree [of K a b])
  qed
qed

lemma parameters_block_agree:
  assumes "agree K a b" "set (map p_name (createParameters D)) \<subseteq> K"
    and "''hasOwnProperty'' \<in> K"
  shows "parameters_block D a = parameters_block D b"
  using assms
  by (simp add: parameters_block_unfold resolved_map_agree agree_hasOwn [of K a b])

lemma parameters_block_failure_agree:
  assumes "agree K a b" "''hasOwnProperty'' \<in> K"
  shows "failure (parameters_block D a) = failure (parameters_block D b)"
  using assms by (simp add: parameters_block_unfold agree_hasOwn [of K a b])

section \<open>The constructor in steps\<close>

lemma ConnectionConfig_object:
  "ConnectionConfig D (JObj ps) vc qa ci =
     (case after_credentials vc ps of Inl e \<Rightarrow> Inl e
      | Inr options' \<Rightarrow> finish_construction D options' qa ci)"
  by (simp add: ConnectionConfig_def checkArgumentExists_def checkArgumentValid_def
      Util_exists_def)

lemma ConnectionConfig_Inr:
  assumes "ConnectionConfig D options vc qa ci = Inr (this, options')"
  shows "\<exists>ps. options = JObj ps \<and> after_credentials vc ps = Inr options'
           \<and> finish_construction D options' qa ci = Inr (this, options')"
proof -
  obtain ps where ps: "options = JObj ps"
    using assms
    by (cases options)
      (auto simp: ConnectionConfig_def checkArgumentExists_def checkArgumentValid_def
        Util_exists_def)
  obtain o1 where o1: "after_credentials vc ps = Inr o1"
    and f: "finish_construction D o1 qa ci = Inr (this, options')"
    using assms unfolding ps ConnectionConfig_object by (auto split: sum.splits)
  have "options' = o1"
    using f by (auto simp: finish_construction_def split: sum.splits prod.splits)
  then show ?thesis using ps o1 f by simp
qed

lemma finish_construction_Inr:
  assumes "finish_construction D options qa ci = Inr (this, options')"
  shows "options' = options" "accessUrl_block options = Inr ()"
    "proxy_block D options = Inr (proxy this)" "optional_block D options = Inr ()"
    "accessUrl this = prop_get options ''accessUrl''"
    "account this = prop_get options ''account''"
    "username this = prop_get options ''username''"
    "password this = prop_get options ''password''"
    "mapParameters this = resolved_map D options"
    "\<not> hasOwnProperty options ''hasOwnProperty''"
  using assms
  by (auto simp: finish_construction_def parameters_block_unfold
      split: sum.splits prod.splits if_splits)

lemma accessUrl_block_Inr: "accessUrl_block options = Inr u \<longleftrightarrow> Util_isString (prop_get options ''accessUrl'')"
  by (cases "prop_get options ''accessUrl''")
    (auto simp: accessUrl_block_def checkArgumentExists_def checkArgumentValid_def Util_exists_def)

lemmas param_names =
  PARAM_TIMEOUT_def PARAM_RESULT_PREFETCH_def
  PARAM_RESULT_STREAM_INTERRUPTS_def PARAM_RESULT_CHUNK_CACHE_SIZE_def
  PARAM_RESULT_PROCESSING_BATCH_SIZE_def PARAM_RESULT_PROCESSING_BATCH_DURATION_def
  PARAM_ROW_STREAM_HIGH_WATER_MARK_def PARAM_RETRY_LARGE_RESULT_SET_MAX_NUM_RETRIES_def
  PARAM_RETRY_LARGE_RESULT_SET_MAX_SLEEP_TIME_def PARAM_RETRY_SF_MAX_NUM_RETRIES_def
  PARAM_RETRY_SF_STARTING_SLEEP_TIME_def PARAM_RETRY_SF_MAX_SLEEP_TIME_def

lemmas run_defs =
  ConnectionConfig_def after_credentials_def validation_on_def finish_construction_def
  credentials_block_def split_account_def derive_accessUrl_def accessUrl_block_def
  proxy_block_def optional_block_def clientInfo_block_def checkArgumentExists_def
  checkArgumentValid_def assertInternal_def Util_exists_def Util_format_url_def
  prop_get_def prop_set_def substring_from_def substring_to_def spec_deps_def
  getParameterValue_def parameters_block_unfold resolved_map_def createParameters_def
  entry_def param_names resolved_def with_default_def hasOwnProperty_def

lemma credentials_block_unfold:
  "credentials_block options =
     (if \<not> Util_exists (prop_get options ''username'')
      then Inl (MissingParameterError ERR_CONN_CREATE_MISSING_USERNAME)
      else if \<not> Util_isString (prop_get options ''username'')
      then Inl (InvalidParameterError ERR_CONN_CREATE_INVALID_USERNAME None)
      else if \<not> Util_exists (prop_get options ''password'')
      then Inl (MissingParameterError ERR_CONN_CREATE_MISSING_PASSWORD)
      else if \<not> Util_isString (prop_get options ''password'')
      then Inl (InvalidParameterError ERR_CONN_CREATE_INVALID_PASSWORD None)
      else if \<not> Util_exists (prop_get options ''account'')
      then Inl (MissingParameterError ERR_CONN_CREATE_MISSING_ACCOUNT)
      else if \<not> Util_isString (prop_get options ''account'')
      then Inl (InvalidParameterError ERR_CONN_CREATE_INVALID_ACCOUNT None)
      else derive_accessUrl (split_account options))"
  by (simp add: credentials_block_def checkArgumentExists_def checkArgumentValid_def)

lemma isString_exists: "Util_isString v \<Longrightarrow> Util_exists v"
  by (cases v) (auto simp: Util_exists_def)

lemma isString_str_of: "Util_isString v \<Longrightarrow> v = JStr (str_of v)"
  by (cases v) auto

lemma credentials_block_Inr:
  assumes "credentials_block options = Inr options'"
  shows "Util_isString (prop_get options ''username'')"
    "Util_isString (prop_get options ''password'')"
    "Util_isString (prop_get options ''account'')"
    "derive_accessUrl (split_account options) = Inr options'"
  using assms unfolding credentials_block_unfold by (auto split: if_splits)

lemma derive_accessUrl_supplied:
  "Util_exists (prop_get options ''accessUrl'') \<Longrightarrow> derive_accessUrl options = Inr options"
  by (simp add: derive_accessUrl_def)

lemma derive_accessUrl_absent:
  assumes "\<not> Util_exists (prop_get options ''accessUrl'')"
    and "derive_accessUrl options = Inr options'"
  shows "prop_get options' ''accessUrl'' =
      JStr (Util_format_url (str_of (prop_get options ''account''))
        (subdomain_of (prop_get options ''region'')))"
  using assms
  by (auto simp: derive_accessUrl_def subdomain_of_def prop_get_set Let_def split: if_splits)

lemma derive_accessUrl_account:
  "derive_accessUrl options = Inr options' \<Longrightarrow>
   prop_get options' ''account'' = prop_get options ''account''"
  by (auto simp: derive_accessUrl_def prop_get_set Let_def split: if_splits)

lemma split_account_accessUrl:
  "prop_get (split_account options) ''accessUrl'' = prop_get options ''accessUrl''"
  by (simp add: split_account_def Let_def prop_get_set)

lemma no_dot_no_split:
  assumes "CHR ''.'' \<notin> set a"
  shows "\<not> splits_at a p"
proof
  assume "splits_at a p"
  then have "p < length a" and "a ! p = CHR ''.''"
    by (auto simp: splits_at_def first_dot_at_def)
  then have "CHR ''.'' \<in> set a" by (metis nth_mem)
  with assms show False by simp
qed

section \<open>The constructor reads the options object only through its bindings\<close>

lemma config_keys_mem:
  "config_keys \<subseteq> K \<Longrightarrow>
     ''username'' \<in> K \<and> ''password'' \<in> K \<and> ''account'' \<in> K \<and> ''region'' \<in> K
     \<and> ''accessUrl'' \<in> K \<and> ''warehouse'' \<in> K \<and> ''database'' \<in> K \<and> ''schema'' \<in> K
     \<and> ''role'' \<in> K \<and> ''streamResult'' \<in> K \<and> ''fetchAsString'' \<in> K
     \<and> ''hasOwnProperty'' \<in> K"
  by (auto simp: config_keys_def)

lemma finish_construction_failure_agree:
  assumes "agree K a b" "config_keys \<subseteq> K" "isNode D \<longrightarrow> proxy_keys \<subseteq> K"
  shows "failure (finish_construction D a qa ci) = failure (finish_construction D b qa ci)"
proof -
  note k = config_keys_mem [OF assms(2)]
  have 1: "accessUrl_block a = accessUrl_block b"
    using assms(1) k by (simp add: accessUrl_block_agree)
  have 2: "proxy_block D a = proxy_block D b"
    using assms(1,3) by (cases "isNode D") (simp_all add: proxy_block_agree proxy_block_not_node)
  have 3: "optional_block D a = optional_block D b"
    using assms(1) k by (simp add: optional_block_agree)
  have 4: "hasOwnProperty a ''hasOwnProperty'' = hasOwnProperty b ''hasOwnProperty''"
    using assms(1) k by (simp add: agree_hasOwn [of K a b])
  show ?thesis
    by (simp add: finish_construction_def 1 2 3 4 parameters_block_unfold
        split: sum.splits prod.splits)
qed

lemma finish_construction_constructed_agree:
  assumes "map_of a = map_of b"
  shows "constructed (finish_construction D a qa ci) = constructed (finish_construction D b qa ci)"
proof -
  have ag: "agree UNIV a b" using assms by (simp add: agree_UNIV)
  have g: "prop_get a k = prop_get b k" for k using assms by (simp add: prop_get_def)
  have 1: "accessUrl_block a = accessUrl_block b"
    using ag by (simp add: accessUrl_block_agree)
  have 2: "proxy_block D a = proxy_block D b"
    using ag by (simp add: proxy_block_agree)
  have 3: "optional_block D a = optional_block D b"
    using ag by (simp add: optional_block_agree)
  have 4: "parameters_block D a = parameters_block D b"
    using ag by (simp add: parameters_block_agree)
  show ?thesis
    by (simp add: finish_construction_def 1 2 3 4 g split: sum.splits prod.splits)
qed

lemma ConnectionConfig_failure_agree:
  assumes "agree K a b" "config_keys \<subseteq> K" "isNode D \<longrightarrow> proxy_keys \<subseteq> K"
  shows "failure (ConnectionConfig D (JObj a) vc qa ci) =
         failure (ConnectionConfig D (JObj b) vc qa ci)"
proof -
  have r: "rel_sum (=) (agree K) (after_credentials vc a) (after_credentials vc b)"
    using assms(1,2) by (rule after_credentials_agree)
  show ?thesis
  proof (cases "after_credentials vc a")
    case (Inl e)
    then have "after_credentials vc b = Inl e"
      using r by (cases "after_credentials vc b") auto
    then show ?thesis using Inl by (simp add: ConnectionConfig_object)
  next
    case (Inr a')
    then obtain b' where b': "after_credentials vc b = Inr b'" and ag: "agree K a' b'"
      using r by (cases "after_credentials vc b") auto
    show ?thesis
      using Inr b' finish_construction_failure_agree [OF ag assms(2,3)]
      by (simp add: ConnectionConfig_object)
  qed
qed

lemma constructed_after_agree:
  assumes "rel_sum (=) (agree UNIV) x y"
  shows "constructed (case x of Inl e \<Rightarrow> Inl e | Inr options' \<Rightarrow> finish_construction D options' qa ci)
       = constructed (case y of Inl e \<Rightarrow> Inl e | Inr options' \<Rightarrow> finish_construction D options' qa ci)"
proof (cases x)
  case (Inl e)
  then have "y = Inl e" using assms by (cases y) auto
  then show ?thesis using Inl by simp
next
  case (Inr a')
  then obtain b' where b': "y = Inr b'" and ag: "map_of a' = map_of b'"
    using assms by (cases y) (auto simp: agree_UNIV)
  show ?thesis using Inr b' finish_construction_constructed_agree [OF ag] by simp
qed

lemma ConnectionConfig_constructed_agree:
  assumes "map_of a = map_of b"
  shows "constructed (ConnectionConfig D (JObj a) vc qa ci) =
         constructed (ConnectionConfig D (JObj b) vc qa ci)"
proof -
  have "agree UNIV a b" using assms by (simp add: agree_UNIV)
  then have "rel_sum (=) (agree UNIV) (after_credentials vc a) (after_credentials vc b)"
    by (rule after_credentials_agree) simp
  then show ?thesis unfolding ConnectionConfig_object by (rule constructed_after_agree)
qed

section \<open>The override loop against the catalog-driven resolution\<close>

lemma split_account_frame:
  "k \<noteq> ''account'' \<Longrightarrow> k \<noteq> ''region'' \<Longrightarrow>
   map_of (split_account options) k = map_of options k"
  by (simp add: split_account_def Let_def prop_set_def update_conv')

lemma derive_accessUrl_frame:
  "derive_accessUrl options = Inr options' \<Longrightarrow> k \<noteq> ''region'' \<Longrightarrow> k \<noteq> ''accessUrl'' \<Longrightarrow>
   map_of options' k = map_of options k"
  by (auto simp: derive_accessUrl_def Let_def prop_set_def update_conv' split: if_splits)

lemma after_credentials_frame:
  assumes "after_credentials vc options = Inr options'"
    and "k \<noteq> ''account''" "k \<noteq> ''region''" "k \<noteq> ''accessUrl''"
  shows "map_of options' k = map_of options k"
proof (cases "validation_on vc")
  case False
  then show ?thesis using assms(1) by (simp add: after_credentials_def)
next
  case True
  then have "credentials_block options = Inr options'"
    using assms(1) by (simp add: after_credentials_def)
  then have "derive_accessUrl (split_account options) = Inr options'"
    by (rule credentials_block_Inr)
  then show ?thesis using assms(2-4) by (simp add: derive_accessUrl_frame split_account_frame)
qed

lemma catalog_names_not_identity:
  assumes "lookup_parameter (createParameters D) n = Some p"
  shows "n \<noteq> ''account'' \<and> n \<noteq> ''region'' \<and> n \<noteq> ''accessUrl''"
proof -
  have "n \<in> set (map p_name (createParameters D))"
    using lookup_parameter_name [OF assms] by force
  then show ?thesis
    by (auto simp: createParameters_def entry_def param_names)
qed

lemma catalog_names_not_read:
  assumes "lookup_parameter (createParameters D) n = Some p"
  shows "n \<notin> config_keys \<and> n \<notin> proxy_keys"
proof -
  have "n \<in> set (map p_name (createParameters D))"
    using lookup_parameter_name [OF assms] by force
  then show ?thesis
    by (auto simp: createParameters_def entry_def param_names config_keys_def proxy_keys_def)
qed

lemma mapParameters_constructed:
  assumes "ConnectionConfig D (JObj options) vc qa ci = Inr (this, options')"
  shows "mapParameters this n =
     map_option (\<lambda>p. resolved options (with_default p)) (lookup_parameter (createParameters D) n)"
proof -
  from ConnectionConfig_Inr [OF assms(1)]
  have ac: "after_credentials vc options = Inr options'"
    and fin: "finish_construction D options' qa ci = Inr (this, options')" by auto
  have m: "mapParameters this = resolved_map D options'"
    using fin by (rule finish_construction_Inr)
  show ?thesis
  proof (cases "lookup_parameter (createParameters D) n")
    case None
    then show ?thesis by (simp add: m resolved_map_def)
  next
    case (Some p)
    then have "map_of options' n = map_of options n"
      using catalog_names_not_identity [OF Some] after_credentials_frame [OF ac] by simp
    then have "agree {n} options' options" by (simp add: agree_def)
    moreover have "p_name (with_default p) = n"
      using lookup_parameter_name [OF Some] by (simp add: with_default_def)
    ultimately have "resolved options' (with_default p) = resolved options (with_default p)"
      by (simp add: resolved_agree [of "{n}"])
    then show ?thesis using Some by (simp add: m resolved_map_def)
  qed
qed

lemma spec_catalog_resolution_apply:
  "map_of (spec_catalog_resolution ps options) n =
     map_option (\<lambda>p. p_value (resolved options (with_default p))) (lookup_parameter ps n)"
  by (induction ps) (auto simp: resolved_def with_default_def)

lemma constructed_Inr: "r = Inr (this, options') \<Longrightarrow> constructed r = Inr this"
  by simp

lemma failure_None_iff: "failure r = None \<longleftrightarrow> \<not> isl r"
  by (cases r) auto



lemma proxy_block_unfold:
  "proxy_block D options =
     (if isNode D \<and> (Util_exists (prop_get options ''proxyHost'')
                      \<or> Util_exists (prop_get options ''proxyPort''))
      then
        (if \<not> Util_exists (prop_get options ''proxyHost'')
         then Inl (MissingParameterError ERR_CONN_CREATE_MISSING_PROXY_HOST)
         else if \<not> Util_isString (prop_get options ''proxyHost'')
         then Inl (InvalidParameterError ERR_CONN_CREATE_INVALID_PROXY_HOST None)
         else if \<not> Util_exists (prop_get options ''proxyPort'')
         then Inl (MissingParameterError ERR_CONN_CREATE_MISSING_PROXY_PORT)
         else if \<not> Util_isNumber (prop_get options ''proxyPort'')
         then Inl (InvalidParameterError ERR_CONN_CREATE_INVALID_PROXY_PORT None)
         else Inr (JObj [(''host'', prop_get options ''proxyHost''),
                         (''port'', prop_get options ''proxyPort'')]))
      else Inr JUndefined)"
  by (simp add: proxy_block_def checkArgumentExists_def checkArgumentValid_def Let_def)

lemma ConnectionConfig_proxy_error:
  assumes "after_credentials vc options = Inr options'"
    and "accessUrl_block options' = Inr ()"
    and "proxy_block D options = Inl e"
  shows "ConnectionConfig D (JObj options) vc qa ci = Inl e"
proof -
  have "agree proxy_keys options' options"
    using after_credentials_frame [OF assms(1)] by (auto simp: agree_def proxy_keys_def)
  then have "proxy_block D options' = proxy_block D options"
    by (rule proxy_block_agree) simp
  then show ?thesis using assms
    by (simp add: ConnectionConfig_object finish_construction_def)
qed

section \<open>Where a \<open>TypeError\<close> can come from\<close>

lemma checks_error: "checks cs = Inl e \<Longrightarrow> Inl e \<in> set cs"
  by (induction cs rule: checks.induct) auto

lemma checkArgumentExists_not_TypeError: "checkArgumentExists c code \<noteq> Inl TypeError"
  by (simp add: checkArgumentExists_def)

lemma checkArgumentValid_not_TypeError: "checkArgumentValid c code arg \<noteq> Inl TypeError"
  by (simp add: checkArgumentValid_def)

lemma assertInternal_not_TypeError: "assertInternal c \<noteq> Inl TypeError"
  by (simp add: assertInternal_def)

lemmas not_TypeError =
  checkArgumentExists_not_TypeError checkArgumentValid_not_TypeError
  assertInternal_not_TypeError

lemma after_credentials_not_TypeError: "after_credentials vc options \<noteq> Inl TypeError"
  by (simp add: after_credentials_def credentials_block_unfold derive_accessUrl_def Let_def)

lemma checks_not_TypeError:
  "\<forall>c\<in>set cs. c \<noteq> Inl TypeError \<Longrightarrow> checks cs \<noteq> Inl TypeError"
  using checks_error by blast

lemma accessUrl_block_not_TypeError: "accessUrl_block options \<noteq> Inl TypeError"
  unfolding accessUrl_block_def
  by (rule checks_not_TypeError) (simp add: not_TypeError)

lemma proxy_block_not_TypeError: "proxy_block D options \<noteq> Inl TypeError"
  by (simp add: proxy_block_unfold)

lemma optional_block_not_TypeError: "optional_block D options \<noteq> Inl TypeError"
  unfolding optional_block_def Let_def
  by (rule checks_not_TypeError) (simp add: not_TypeError)

lemma clientInfo_block_not_TypeError: "clientInfo_block clientInfo \<noteq> Inl TypeError"
  by (auto simp: clientInfo_block_def assertInternal_def split: sum.splits if_splits
      dest!: checks_error)

lemma finish_construction_TypeError:
  assumes "finish_construction D options qa ci = Inl TypeError"
  shows "hasOwnProperty options ''hasOwnProperty''"
  using assms accessUrl_block_not_TypeError [of options] proxy_block_not_TypeError [of D options]
    optional_block_not_TypeError [of D options] clientInfo_block_not_TypeError [of ci]
  by (auto simp: finish_construction_def parameters_block_unfold
      split: sum.splits prod.splits if_splits)

lemma ConnectionConfig_TypeError:
  assumes "ConnectionConfig D (JObj options) vc qa ci = Inl TypeError"
  shows "hasOwnProperty options ''hasOwnProperty''"
proof (cases "after_credentials vc options")
  case (Inl e)
  then show ?thesis
    using assms after_credentials_not_TypeError [of vc options]
    by (simp add: ConnectionConfig_object)
next
  case (Inr options')
  then have "finish_construction D options' qa ci = Inl TypeError"
    using assms by (simp add: ConnectionConfig_object)
  then have "hasOwnProperty options' ''hasOwnProperty''"
    by (rule finish_construction_TypeError)
  moreover have "map_of options' ''hasOwnProperty'' = map_of options ''hasOwnProperty''"
    using Inr by (rule after_credentials_frame) simp_all
  ultimately show ?thesis by (simp add: hasOwnProperty_map_of)
qed

section \<open>C1: the derived access URL\<close>

text \<open>
  C1 as stated fails. With validation on, the account \<^verbatim>\<open>abc.us-west-2\<close>, no region and
  no access URL, the constructor splits the account at its dot and derives
  \<^verbatim>\<open>https://abc.snowflakecomputing.com\<close>; the format of the claim, filled with the
  caller's account and the empty subdomain of an absent region, is
  \<^verbatim>\<open>https://abc.us-west-2.snowflakecomputing.com\<close>.
\<close>

theorem accessUrl_derivation_counterexample:
  "call accessUrl
     (ConnectionConfig (spec_deps True [''String''])
        (JObj [(''username'', JStr ''u''), (''password'', JStr ''p''),
               (''account'', JStr ''abc.us-west-2'')])
        None JUndefined JUndefined) = Inr (JStr ''https://abc.snowflakecomputing.com'')
   \<and> ''https://abc.snowflakecomputing.com'' \<noteq>
       ''https://'' @ ''abc.us-west-2'' @ subdomain_of JUndefined @ ''.snowflakecomputing.com''"
  by (simp add: run_defs subdomain_of_def)

text \<open>
  C1, amended. For every construction with validation on, the account a string and the
  access URL absent, the resulting access URL is
  \<^verbatim>\<open>https://{account}{subdomain}.snowflakecomputing.com\<close> for the account and region as
  they are after the split of a dotted account: when the first dot of the account is
  neither its first nor its last character, the account is the part before that dot and
  the region the part after it; otherwise they are the caller's. The subdomain is empty
  for an absent region and for \<^verbatim>\<open>us-west-2\<close>, a dot and the region otherwise.
\<close>

theorem accessUrl_derived_from_split_account:
  assumes "ConnectionConfig D (JObj options) vc qa ci = Inr (this, options')"
    and "validation_on vc"
    and "prop_get options ''account'' = JStr a"
    and "\<not> Util_exists (prop_get options ''accessUrl'')"
  shows "(\<forall>p. splits_at a p \<longrightarrow>
            accessUrl this =
              JStr (''https://'' @ take p a @ subdomain_of (JStr (drop (Suc p) a))
                    @ ''.snowflakecomputing.com''))
       \<and> ((\<forall>p. \<not> splits_at a p) \<longrightarrow>
            accessUrl this =
              JStr (''https://'' @ a @ subdomain_of (prop_get options ''region'')
                    @ ''.snowflakecomputing.com''))"
proof -
  from ConnectionConfig_Inr [OF assms(1)]
  have ac: "after_credentials vc options = Inr options'"
    and fin: "finish_construction D options' qa ci = Inr (this, options')" by auto
  have url: "accessUrl this = prop_get options' ''accessUrl''"
    using fin by (rule finish_construction_Inr)
  have "credentials_block options = Inr options'"
    using ac assms(2) by (simp add: after_credentials_def)
  then have der: "derive_accessUrl (split_account options) = Inr options'"
    by (rule credentials_block_Inr)
  have absent: "\<not> Util_exists (prop_get (split_account options) ''accessUrl'')"
    using assms(4) by (simp add: split_account_accessUrl)
  note derived = derive_accessUrl_absent [OF absent der]
  show ?thesis
  proof (intro conjI allI impI)
    fix p
    assume "splits_at a p"
    then have "split_account options =
        prop_set (prop_set options ''region'' (JStr (drop (Suc p) a))) ''account''
          (JStr (take p a))"
      using assms(3) by (simp add: split_account_at)
    then show "accessUrl this =
        JStr (''https://'' @ take p a @ subdomain_of (JStr (drop (Suc p) a))
              @ ''.snowflakecomputing.com'')"
      using derived url by (simp add: prop_get_set Util_format_url_def)
  next
    assume "\<forall>p. \<not> splits_at a p"
    then have "split_account options = options"
      using assms(3) by (simp add: split_account_none)
    then show "accessUrl this =
        JStr (''https://'' @ a @ subdomain_of (prop_get options ''region'')
              @ ''.snowflakecomputing.com'')"
      using derived url assms(3) by (simp add: Util_format_url_def)
  qed
qed

text \<open>
  C1, amended, at two inputs: the account \<^verbatim>\<open>abc.eu-central-1\<close> with no region, and the
  account \<^verbatim>\<open>abc\<close> with the region \<^verbatim>\<open>us-west-2\<close>.
\<close>

theorem accessUrl_derived_from_split_account_witness:
  "splits_at ''abc.eu-central-1'' 3
   \<and> accessUrl (fst (projr (ConnectionConfig (spec_deps True [''String''])
        (JObj [(''username'', JStr ''u''), (''password'', JStr ''p''),
               (''account'', JStr ''abc.eu-central-1'')])
        None JUndefined JUndefined)))
     = JStr ''https://abc.eu-central-1.snowflakecomputing.com''
   \<and> accessUrl (fst (projr (ConnectionConfig (spec_deps True [''String''])
        (JObj [(''username'', JStr ''u''), (''password'', JStr ''p''),
               (''account'', JStr ''abc''), (''region'', JStr ''us-west-2'')])
        (Some True) JUndefined JUndefined)))
     = JStr ''https://abc.snowflakecomputing.com''"
proof -
  let ?D = "spec_deps True [''String'']"
  let ?o1 = "[(''username'', JStr ''u''), (''password'', JStr ''p''),
               (''account'', JStr ''abc.eu-central-1'')]"
  let ?o2 = "[(''username'', JStr ''u''), (''password'', JStr ''p''),
               (''account'', JStr ''abc''), (''region'', JStr ''us-west-2'')]"
  let ?r1 = "ConnectionConfig ?D (JObj ?o1) None JUndefined JUndefined"
  let ?r2 = "ConnectionConfig ?D (JObj ?o2) (Some True) JUndefined JUndefined"
  have ok1: "?r1 = Inr (fst (projr ?r1), snd (projr ?r1))" by (simp add: run_defs)
  have ok2: "?r2 = Inr (fst (projr ?r2), snd (projr ?r2))" by (simp add: run_defs)
  have sp: "splits_at ''abc.eu-central-1'' 3"
    by (simp add: splits_at_def first_dot_at_def)
  have nsp: "\<forall>p. \<not> splits_at ''abc'' p"
    by (simp add: no_dot_no_split)
  have a1: "prop_get ?o1 ''account'' = JStr ''abc.eu-central-1''" by (simp add: prop_get_def)
  have a2: "prop_get ?o2 ''account'' = JStr ''abc''" by (simp add: prop_get_def)
  have u1: "\<not> Util_exists (prop_get ?o1 ''accessUrl'')" by (simp add: prop_get_def Util_exists_def)
  have u2: "\<not> Util_exists (prop_get ?o2 ''accessUrl'')" by (simp add: prop_get_def Util_exists_def)
  have v1: "validation_on None" and v2: "validation_on (Some True)"
    by (simp_all add: validation_on_def)
  have "accessUrl (fst (projr ?r1)) =
      JStr (''https://'' @ take 3 ''abc.eu-central-1''
            @ subdomain_of (JStr (drop (Suc 3) ''abc.eu-central-1''))
            @ ''.snowflakecomputing.com'')"
    using accessUrl_derived_from_split_account [OF ok1 v1 a1 u1] sp by blast
  moreover have "accessUrl (fst (projr ?r2)) =
      JStr (''https://'' @ ''abc'' @ subdomain_of (prop_get ?o2 ''region'')
            @ ''.snowflakecomputing.com'')"
    using accessUrl_derived_from_split_account [OF ok2 v2 a2 u2] nsp by blast
  ultimately show ?thesis using sp
    by (simp add: subdomain_of_def Util_exists_def prop_get_def)
qed

section \<open>C2: missing credentials\<close>




section \<open>C3: overrides of the parameters\<close>

text \<open>
  C3 as stated fails in its "only if". With \<^verbatim>\<open>resultStreamInterrupts: 3\<close> supplied, the
  accessor returns 3, the supplied value, though the parameter is not externally
  overridable: the default is the same value.
\<close>

theorem override_iff_counterexample:
  "call_getParameterValue ''resultStreamInterrupts''
     (ConnectionConfig (spec_deps True [''String''])
        (JObj [(''username'', JStr ''u''), (''password'', JStr ''p''), (''account'', JStr ''abc''),
               (''resultStreamInterrupts'', JNum 3)])
        None JUndefined JUndefined) = Inr (JNum 3)
   \<and> map_option p_external
        (lookup_parameter (createParameters (spec_deps True [''String'']))
           ''resultStreamInterrupts'') = Some False"
  by (simp add: run_defs)

text \<open>
  C3, amended. For every parameter of the catalog and every value the caller supplies
  under its name: the accessor of the constructed configuration returns the supplied
  value if the parameter is marked externally overridable and its validator accepts the
  value, and the default in every other case; and whatever value stands under that name,
  construction does not fail.
\<close>

theorem override_applied_if_external_and_valid:
  assumes "ConnectionConfig D (JObj options) vc qa ci = Inr (this, options')"
    and "lookup_parameter (createParameters D) n = Some p"
    and "hasOwnProperty options n"
  shows "getParameterValue this n =
           Inr (if p_external p \<and> p_validate p (prop_get options n)
                then prop_get options n else p_defaultValue p)
       \<and> (\<forall>v. failure (ConnectionConfig D (JObj (prop_set options n v)) vc qa ci) = None)"
proof (intro conjI allI)
  have "p_name p = n" using lookup_parameter_name [OF assms(2)] by simp
  then show "getParameterValue this n =
           Inr (if p_external p \<and> p_validate p (prop_get options n)
                then prop_get options n else p_defaultValue p)"
    using assms(2,3)
    by (simp add: getParameterValue_def mapParameters_constructed [OF assms(1)]
        resolved_def with_default_def)
next
  fix v
  have nk: "n \<notin> config_keys \<and> n \<notin> proxy_keys"
    using assms(2) by (rule catalog_names_not_read)
  then have "agree (- {n}) (prop_set options n v) options"
    by (simp add: agree_set_left)
  moreover have "config_keys \<subseteq> - {n}" "isNode D \<longrightarrow> proxy_keys \<subseteq> - {n}"
    using nk by auto
  ultimately have "failure (ConnectionConfig D (JObj (prop_set options n v)) vc qa ci) =
      failure (ConnectionConfig D (JObj options) vc qa ci)"
    by (rule ConnectionConfig_failure_agree)
  then show "failure (ConnectionConfig D (JObj (prop_set options n v)) vc qa ci) = None"
    using assms(1) by simp
qed

text \<open>
  C3, amended, at \<^verbatim>\<open>timeout: -5\<close> (the default 90000 is kept),
  \<^verbatim>\<open>resultStreamInterrupts: 99\<close> (the default 3 is kept) and \<^verbatim>\<open>timeout: 5000\<close>
  (construction succeeds), with the validators as the specification describes them.
\<close>

theorem override_applied_if_external_and_valid_witness:
  "getTimeout (fst (projr (ConnectionConfig (spec_deps True [''String''])
        (JObj [(''username'', JStr ''u''), (''password'', JStr ''p''), (''account'', JStr ''abc''),
               (''timeout'', JNum (- 5)), (''resultStreamInterrupts'', JNum 99)])
        None JUndefined JUndefined))) = Inr (JNum 90000)
   \<and> getResultStreamInterrupts (fst (projr (ConnectionConfig (spec_deps True [''String''])
        (JObj [(''username'', JStr ''u''), (''password'', JStr ''p''), (''account'', JStr ''abc''),
               (''timeout'', JNum (- 5)), (''resultStreamInterrupts'', JNum 99)])
        None JUndefined JUndefined))) = Inr (JNum 3)
   \<and> failure (ConnectionConfig (spec_deps True [''String''])
        (JObj [(''username'', JStr ''u''), (''password'', JStr ''p''), (''account'', JStr ''abc''),
               (''timeout'', JNum 5000), (''resultStreamInterrupts'', JNum 99)])
        None JUndefined JUndefined) = None"
proof -
  let ?D = "spec_deps True [''String'']"
  let ?o = "[(''username'', JStr ''u''), (''password'', JStr ''p''), (''account'', JStr ''abc''),
               (''timeout'', JNum (- 5)), (''resultStreamInterrupts'', JNum 99)]"
  let ?r = "ConnectionConfig ?D (JObj ?o) None JUndefined JUndefined"
  let ?pt = "entry PARAM_TIMEOUT (JNum (90 * 1000)) True number_isPositiveInteger"
  let ?pi = "entry PARAM_RESULT_STREAM_INTERRUPTS (JNum 3) False number_isPositiveInteger"
  have ok: "?r = Inr (fst (projr ?r), snd (projr ?r))" by (simp add: run_defs)
  have lt: "lookup_parameter (createParameters ?D) ''timeout'' = Some ?pt"
    by (simp add: createParameters_def entry_def param_names spec_deps_def)
  have li: "lookup_parameter (createParameters ?D) ''resultStreamInterrupts'' = Some ?pi"
    by (simp add: createParameters_def entry_def param_names spec_deps_def)
  have ht: "hasOwnProperty ?o ''timeout''" and hi: "hasOwnProperty ?o ''resultStreamInterrupts''"
    by (simp_all add: hasOwnProperty_def)
  note Tt = override_applied_if_external_and_valid [OF ok lt ht]
  note Ti = override_applied_if_external_and_valid [OF ok li hi]
  have 1: "getParameterValue (fst (projr ?r)) ''timeout'' = Inr (JNum 90000)"
    using Tt by (simp add: entry_def prop_get_def)
  have 2: "getParameterValue (fst (projr ?r)) ''resultStreamInterrupts'' = Inr (JNum 3)"
    using Ti by (simp add: entry_def prop_get_def)
  have "failure (ConnectionConfig ?D (JObj (prop_set ?o ''timeout'' (JNum 5000)))
      None JUndefined JUndefined) = None"
    using Tt by blast
  then have 3: "failure (ConnectionConfig ?D
      (JObj [(''username'', JStr ''u''), (''password'', JStr ''p''), (''account'', JStr ''abc''),
             (''timeout'', JNum 5000), (''resultStreamInterrupts'', JNum 99)])
      None JUndefined JUndefined) = None"
    by (simp add: prop_set_def)
  show ?thesis using 1 2 3
    by (simp add: getTimeout_def getResultStreamInterrupts_def param_names)
qed

section \<open>C4: a dotted account\<close>

text \<open>
  C4. With validation on, an account whose first dot is at position \<open>p\<close>, neither first
  nor last, gives the same outcome (the same configuration, or the same error) as the
  options with the part before the dot as account and the part after it as region. This
  holds whatever region the caller gave beside the dotted account.
\<close>

theorem dotted_account_same_as_account_and_region:
  assumes "validation_on vc"
    and "prop_get options ''account'' = JStr a"
    and "splits_at a p"
  shows "constructed (ConnectionConfig D (JObj options) vc qa ci) =
         constructed (ConnectionConfig D
           (JObj (prop_set (prop_set options ''account'' (JStr (take p a)))
                    ''region'' (JStr (drop (Suc p) a))))
           vc qa ci)"
proof -
  let ?b = "prop_set (prop_set options ''account'' (JStr (take p a)))
              ''region'' (JStr (drop (Suc p) a))"
  have nodot: "CHR ''.'' \<notin> set (take p a)"
    using assms(3) by (simp add: splits_at_def first_dot_at_def)
  have sa: "split_account options =
      prop_set (prop_set options ''region'' (JStr (drop (Suc p) a))) ''account'' (JStr (take p a))"
    using assms(2,3) by (rule split_account_at)
  have "prop_get ?b ''account'' = JStr (take p a)" by (simp add: prop_get_set)
  then have sb: "split_account ?b = ?b"
    by (rule split_account_none) (simp add: no_dot_no_split [OF nodot])
  have "agree UNIV (split_account options) (split_account ?b)"
    unfolding sa sb by (rule prop_set_swap) simp
  then have "rel_sum (=) (agree UNIV)
      (derive_accessUrl (split_account options)) (derive_accessUrl (split_account ?b))"
    by (rule derive_accessUrl_agree) simp_all
  then have "rel_sum (=) (agree UNIV) (credentials_block options) (credentials_block ?b)"
    using assms(2) unfolding credentials_block_unfold
    by (simp add: prop_get_set Util_exists_def)
  then have "rel_sum (=) (agree UNIV) (after_credentials vc options) (after_credentials vc ?b)"
    using assms(1) by (simp add: after_credentials_def)
  then show ?thesis unfolding ConnectionConfig_object by (rule constructed_after_agree)
qed

text \<open>
  C4 at the account \<^verbatim>\<open>abc.eu-central-1\<close>: construction succeeds and equals that from
  the account \<^verbatim>\<open>abc\<close> and the region \<^verbatim>\<open>eu-central-1\<close>.
\<close>

theorem dotted_account_same_as_account_and_region_witness:
  "splits_at ''abc.eu-central-1'' 3
   \<and> \<not> isl (ConnectionConfig (spec_deps True [''String''])
        (JObj [(''username'', JStr ''u''), (''password'', JStr ''p''),
               (''account'', JStr ''abc.eu-central-1'')])
        None JUndefined JUndefined)
   \<and> constructed (ConnectionConfig (spec_deps True [''String''])
        (JObj [(''username'', JStr ''u''), (''password'', JStr ''p''),
               (''account'', JStr ''abc.eu-central-1'')])
        None JUndefined JUndefined)
     = constructed (ConnectionConfig (spec_deps True [''String''])
        (JObj [(''username'', JStr ''u''), (''password'', JStr ''p''),
               (''account'', JStr ''abc''), (''region'', JStr ''eu-central-1'')])
        None JUndefined JUndefined)"
proof -
  let ?D = "spec_deps True [''String'']"
  let ?o = "[(''username'', JStr ''u''), (''password'', JStr ''p''),
               (''account'', JStr ''abc.eu-central-1'')]"
  have sp: "splits_at ''abc.eu-central-1'' 3"
    by (simp add: splits_at_def first_dot_at_def)
  have a: "prop_get ?o ''account'' = JStr ''abc.eu-central-1''" by (simp add: prop_get_def)
  have v: "validation_on None" by (simp add: validation_on_def)
  have ok: "\<not> isl (ConnectionConfig ?D (JObj ?o) None JUndefined JUndefined)"
    by (simp add: run_defs)
  have e: "prop_set (prop_set ?o ''account'' (JStr (take 3 ''abc.eu-central-1'')))
             ''region'' (JStr (drop (Suc 3) ''abc.eu-central-1''))
         = [(''username'', JStr ''u''), (''password'', JStr ''p''),
               (''account'', JStr ''abc''), (''region'', JStr ''eu-central-1'')]"
    by (simp add: prop_set_def)
  show ?thesis
    using dotted_account_same_as_account_and_region [OF v a sp, of ?D JUndefined JUndefined]
      sp ok unfolding e by simp
qed

section \<open>C5: the proxy fields\<close>

text \<open>
  C5 as stated fails. In a Node context with valid credentials: with
  \<^verbatim>\<open>proxyHost: 5\<close> and no port, exactly one field is supplied and the error is the
  invalid-host one, not the missing-port one; with \<^verbatim>\<open>proxyPort: "8080"\<close> and no host,
  the wrong-typed field is the port and the error names the host.
\<close>

theorem proxy_errors_counterexample:
  "failure (ConnectionConfig (spec_deps True [''String''])
        (JObj [(''username'', JStr ''u''), (''password'', JStr ''p''), (''account'', JStr ''abc''),
               (''proxyHost'', JNum 5)])
        None JUndefined JUndefined)
     = Some (InvalidParameterError ERR_CONN_CREATE_INVALID_PROXY_HOST None)
   \<and> failure (ConnectionConfig (spec_deps True [''String''])
        (JObj [(''username'', JStr ''u''), (''password'', JStr ''p''), (''account'', JStr ''abc''),
               (''proxyPort'', JStr ''8080'')])
        None JUndefined JUndefined)
     = Some (MissingParameterError ERR_CONN_CREATE_MISSING_PROXY_HOST)"
  by (simp add: run_defs)

text \<open>
  C5, amended. In a Node context, once the checks of the options, the credentials and
  the access URL have passed, the four proxy checks run in order and the first that fails
  gives the error: a port without a host fails with missing-proxy-host; a host that is
  no string fails with invalid-proxy-host; a string host without a port fails with
  missing-proxy-port; a string host with a port that is no number fails with
  invalid-proxy-port. Outside a Node context \<^verbatim>\<open>getProxy()\<close> is \<^verbatim>\<open>undefined\<close> and
  whatever stands in the two proxy fields changes neither success nor the error.
\<close>

theorem proxy_checks_in_order:
  "(isNode D \<and> after_credentials vc options = Inr options' \<and> accessUrl_block options' = Inr ()
      \<longrightarrow>
      (\<not> Util_exists (prop_get options ''proxyHost'')
         \<and> Util_exists (prop_get options ''proxyPort'') \<longrightarrow>
       ConnectionConfig D (JObj options) vc qa ci =
         Inl (MissingParameterError ERR_CONN_CREATE_MISSING_PROXY_HOST))
      \<and> (Util_exists (prop_get options ''proxyHost'')
         \<and> \<not> Util_isString (prop_get options ''proxyHost'') \<longrightarrow>
       ConnectionConfig D (JObj options) vc qa ci =
         Inl (InvalidParameterError ERR_CONN_CREATE_INVALID_PROXY_HOST None))
      \<and> (Util_isString (prop_get options ''proxyHost'')
         \<and> \<not> Util_exists (prop_get options ''proxyPort'') \<longrightarrow>
       ConnectionConfig D (JObj options) vc qa ci =
         Inl (MissingParameterError ERR_CONN_CREATE_MISSING_PROXY_PORT))
      \<and> (Util_isString (prop_get options ''proxyHost'')
         \<and> Util_exists (prop_get options ''proxyPort'')
         \<and> \<not> Util_isNumber (prop_get options ''proxyPort'') \<longrightarrow>
       ConnectionConfig D (JObj options) vc qa ci =
         Inl (InvalidParameterError ERR_CONN_CREATE_INVALID_PROXY_PORT None)))
   \<and> (\<not> isNode D \<longrightarrow>
      (\<forall>this options''. ConnectionConfig D (JObj options) vc qa ci = Inr (this, options'')
         \<longrightarrow> getProxy this = JUndefined)
      \<and> (\<forall>host port.
           failure (ConnectionConfig D
             (JObj (prop_set (prop_set options ''proxyHost'' host) ''proxyPort'' port)) vc qa ci)
           = failure (ConnectionConfig D (JObj options) vc qa ci)))"
proof (intro conjI impI allI)
  assume a: "isNode D \<and> after_credentials vc options = Inr options'
      \<and> accessUrl_block options' = Inr ()"
  assume "\<not> Util_exists (prop_get options ''proxyHost'')
      \<and> Util_exists (prop_get options ''proxyPort'')"
  then have "proxy_block D options = Inl (MissingParameterError ERR_CONN_CREATE_MISSING_PROXY_HOST)"
    using a by (simp add: proxy_block_unfold)
  then show "ConnectionConfig D (JObj options) vc qa ci =
      Inl (MissingParameterError ERR_CONN_CREATE_MISSING_PROXY_HOST)"
    using a by (simp add: ConnectionConfig_proxy_error)
next
  assume a: "isNode D \<and> after_credentials vc options = Inr options'
      \<and> accessUrl_block options' = Inr ()"
  assume "Util_exists (prop_get options ''proxyHost'')
      \<and> \<not> Util_isString (prop_get options ''proxyHost'')"
  then have "proxy_block D options =
      Inl (InvalidParameterError ERR_CONN_CREATE_INVALID_PROXY_HOST None)"
    using a by (simp add: proxy_block_unfold)
  then show "ConnectionConfig D (JObj options) vc qa ci =
      Inl (InvalidParameterError ERR_CONN_CREATE_INVALID_PROXY_HOST None)"
    using a by (simp add: ConnectionConfig_proxy_error)
next
  assume a: "isNode D \<and> after_credentials vc options = Inr options'
      \<and> accessUrl_block options' = Inr ()"
  assume "Util_isString (prop_get options ''proxyHost'')
      \<and> \<not> Util_exists (prop_get options ''proxyPort'')"
  then have "proxy_block D options = Inl (MissingParameterError ERR_CONN_CREATE_MISSING_PROXY_PORT)"
    using a by (simp add: proxy_block_unfold isString_exists)
  then show "ConnectionConfig D (JObj options) vc qa ci =
      Inl (MissingParameterError ERR_CONN_CREATE_MISSING_PROXY_PORT)"
    using a by (simp add: ConnectionConfig_proxy_error)
next
  assume a: "isNode D \<and> after_credentials vc options = Inr options'
      \<and> accessUrl_block options' = Inr ()"
  assume "Util_isString (prop_get options ''proxyHost'')
      \<and> Util_exists (prop_get options ''proxyPort'')
      \<and> \<not> Util_isNumber (prop_get options ''proxyPort'')"
  then have "proxy_block D options =
      Inl (InvalidParameterError ERR_CONN_CREATE_INVALID_PROXY_PORT None)"
    using a by (simp add: proxy_block_unfold isString_exists)
  then show "ConnectionConfig D (JObj options) vc qa ci =
      Inl (InvalidParameterError ERR_CONN_CREATE_INVALID_PROXY_PORT None)"
    using a by (simp add: ConnectionConfig_proxy_error)
next
  fix this options''
  assume "\<not> isNode D"
    and c: "ConnectionConfig D (JObj options) vc qa ci = Inr (this, options'')"
  from ConnectionConfig_Inr [OF c]
  have "finish_construction D options'' qa ci = Inr (this, options'')" by auto
  then have "proxy_block D options'' = Inr (proxy this)"
    by (rule finish_construction_Inr)
  then show "getProxy this = JUndefined"
    using \<open>\<not> isNode D\<close> by (simp add: proxy_block_not_node getProxy_def)
next
  fix host port
  assume n: "\<not> isNode D"
  let ?b = "prop_set (prop_set options ''proxyHost'' host) ''proxyPort'' port"
  have "agree (- proxy_keys) options (prop_set options ''proxyHost'' host)"
    by (rule agree_sym, rule agree_set_left) (simp add: proxy_keys_def)
  moreover have "agree (- proxy_keys) (prop_set options ''proxyHost'' host) ?b"
    by (rule agree_sym, rule agree_set_left) (simp add: proxy_keys_def)
  ultimately have "agree (- proxy_keys) ?b options"
    by (blast intro: agree_trans agree_sym)
  moreover have "config_keys \<subseteq> - proxy_keys"
    by (auto simp: config_keys_def proxy_keys_def)
  moreover have "isNode D \<longrightarrow> proxy_keys \<subseteq> - proxy_keys" using n by simp
  ultimately show "failure (ConnectionConfig D (JObj ?b) vc qa ci)
      = failure (ConnectionConfig D (JObj options) vc qa ci)"
    by (rule ConnectionConfig_failure_agree)
qed

text \<open>
  C5, amended, at six inputs: each of the four errors in a Node context, and outside a
  Node context a supplied host that leaves \<^verbatim>\<open>getProxy()\<close> undefined and construction
  successful.
\<close>

theorem proxy_checks_in_order_witness:
  "ConnectionConfig (spec_deps True [''String''])
       (JObj [(''username'', JStr ''u''), (''password'', JStr ''p''), (''account'', JStr ''abc''),
              (''proxyHost'', JStr ''proxy.example.test'')])
       None JUndefined JUndefined
     = Inl (MissingParameterError ERR_CONN_CREATE_MISSING_PROXY_PORT)
   \<and> ConnectionConfig (spec_deps True [''String''])
       (JObj [(''username'', JStr ''u''), (''password'', JStr ''p''), (''account'', JStr ''abc''),
              (''proxyPort'', JNum 8080)])
       None JUndefined JUndefined
     = Inl (MissingParameterError ERR_CONN_CREATE_MISSING_PROXY_HOST)
   \<and> ConnectionConfig (spec_deps True [''String''])
       (JObj [(''accessUrl'', JStr ''https://abc.example.test''), (''proxyHost'', JNum 5),
              (''proxyPort'', JNum 8080)])
       (Some False) JUndefined JUndefined
     = Inl (InvalidParameterError ERR_CONN_CREATE_INVALID_PROXY_HOST None)
   \<and> ConnectionConfig (spec_deps True [''String''])
       (JObj [(''accessUrl'', JStr ''https://abc.example.test''),
              (''proxyHost'', JStr ''proxy.example.test''), (''proxyPort'', JStr ''8080'')])
       (Some False) JUndefined JUndefined
     = Inl (InvalidParameterError ERR_CONN_CREATE_INVALID_PROXY_PORT None)
   \<and> getProxy (fst (projr (ConnectionConfig (spec_deps False [''String''])
       (JObj [(''username'', JStr ''u''), (''password'', JStr ''p''), (''account'', JStr ''abc''),
              (''proxyHost'', JStr ''proxy.example.test'')])
       None JUndefined JUndefined))) = JUndefined
   \<and> failure (ConnectionConfig (spec_deps False [''String''])
       (JObj [(''username'', JStr ''u''), (''password'', JStr ''p''), (''account'', JStr ''abc''),
              (''proxyHost'', JStr ''proxy.example.test''), (''proxyPort'', JNull)])
       None JUndefined JUndefined) = None"
proof -
  let ?N = "spec_deps True [''String'']"
  let ?B = "spec_deps False [''String'']"
  let ?url = "(''accessUrl'', JStr ''https://abc.snowflakecomputing.com'')"
  let ?o1 = "[(''username'', JStr ''u''), (''password'', JStr ''p''), (''account'', JStr ''abc''),
              (''proxyHost'', JStr ''proxy.example.test'')]"
  let ?o2 = "[(''username'', JStr ''u''), (''password'', JStr ''p''), (''account'', JStr ''abc''),
              (''proxyPort'', JNum 8080)]"
  let ?o3 = "[(''accessUrl'', JStr ''https://abc.example.test''), (''proxyHost'', JNum 5),
              (''proxyPort'', JNum 8080)]"
  let ?o4 = "[(''accessUrl'', JStr ''https://abc.example.test''),
              (''proxyHost'', JStr ''proxy.example.test''), (''proxyPort'', JStr ''8080'')]"
  have n: "isNode ?N" "\<not> isNode ?B" by (simp_all add: spec_deps_def)
  have a1: "after_credentials None ?o1 = Inr (?o1 @ [?url])"
    and a2: "after_credentials None ?o2 = Inr (?o2 @ [?url])"
    and a3: "after_credentials (Some False) ?o3 = Inr ?o3"
    and a4: "after_credentials (Some False) ?o4 = Inr ?o4"
    by (simp_all add: run_defs)
  have u1: "accessUrl_block (?o1 @ [?url]) = Inr ()"
    and u2: "accessUrl_block (?o2 @ [?url]) = Inr ()"
    and u3: "accessUrl_block ?o3 = Inr ()"
    and u4: "accessUrl_block ?o4 = Inr ()"
    by (simp_all add: accessUrl_block_Inr prop_get_def)
  have h1: "Util_isString (prop_get ?o1 ''proxyHost'')
      \<and> \<not> Util_exists (prop_get ?o1 ''proxyPort'')"
    and h2: "\<not> Util_exists (prop_get ?o2 ''proxyHost'')
      \<and> Util_exists (prop_get ?o2 ''proxyPort'')"
    and h3: "Util_exists (prop_get ?o3 ''proxyHost'')
      \<and> \<not> Util_isString (prop_get ?o3 ''proxyHost'')"
    and h4: "Util_isString (prop_get ?o4 ''proxyHost'')
      \<and> Util_exists (prop_get ?o4 ''proxyPort'')
      \<and> \<not> Util_isNumber (prop_get ?o4 ''proxyPort'')"
    by (simp_all add: prop_get_def Util_exists_def)
  have 1: "ConnectionConfig ?N (JObj ?o1) None JUndefined JUndefined
      = Inl (MissingParameterError ERR_CONN_CREATE_MISSING_PROXY_PORT)"
    using proxy_checks_in_order [of ?N None ?o1 "?o1 @ [?url]" JUndefined JUndefined]
      n(1) a1 u1 h1 by blast
  have 2: "ConnectionConfig ?N (JObj ?o2) None JUndefined JUndefined
      = Inl (MissingParameterError ERR_CONN_CREATE_MISSING_PROXY_HOST)"
    using proxy_checks_in_order [of ?N None ?o2 "?o2 @ [?url]" JUndefined JUndefined]
      n(1) a2 u2 h2 by blast
  have 3: "ConnectionConfig ?N (JObj ?o3) (Some False) JUndefined JUndefined
      = Inl (InvalidParameterError ERR_CONN_CREATE_INVALID_PROXY_HOST None)"
    using proxy_checks_in_order [of ?N "Some False" ?o3 ?o3 JUndefined JUndefined]
      n(1) a3 u3 h3 by blast
  have 4: "ConnectionConfig ?N (JObj ?o4) (Some False) JUndefined JUndefined
      = Inl (InvalidParameterError ERR_CONN_CREATE_INVALID_PROXY_PORT None)"
    using proxy_checks_in_order [of ?N "Some False" ?o4 ?o4 JUndefined JUndefined]
      n(1) a4 u4 h4 by blast
  let ?r = "ConnectionConfig ?B (JObj ?o1) None JUndefined JUndefined"
  have ok: "?r = Inr (fst (projr ?r), snd (projr ?r))" by (simp add: run_defs)
  note T = proxy_checks_in_order [of ?B None ?o1 ?o1 JUndefined JUndefined]
  have 5: "getProxy (fst (projr ?r)) = JUndefined"
    using T n(2) ok by blast
  have "failure (ConnectionConfig ?B
      (JObj (prop_set (prop_set ?o1 ''proxyHost'' (JStr ''proxy.example.test''))
         ''proxyPort'' JNull)) None JUndefined JUndefined) = failure ?r"
    using T n(2) by blast
  moreover have "failure ?r = None" by (subst ok) simp
  ultimately have 6: "failure (ConnectionConfig ?B
       (JObj [(''username'', JStr ''u''), (''password'', JStr ''p''), (''account'', JStr ''abc''),
              (''proxyHost'', JStr ''proxy.example.test''), (''proxyPort'', JNull)])
       None JUndefined JUndefined) = None"
    by (simp add: prop_set_def)
  show ?thesis using 1 2 3 4 5 6 by simp
qed

section \<open>C6: the shape of the access URL\<close>

text \<open>
  C6 as stated fails. The supplied access URL \<^verbatim>\<open>localhost\<close> is stored as it is, and
  it does not begin with \<^verbatim>\<open>https://\<close>.
\<close>

theorem accessUrl_shape_counterexample:
  "call accessUrl
     (ConnectionConfig (spec_deps True [''String''])
        (JObj [(''username'', JStr ''u''), (''password'', JStr ''p''),
               (''account'', JStr ''abc''), (''accessUrl'', JStr ''localhost'')])
        None JUndefined JUndefined) = Inr (JStr ''localhost'')
   \<and> take 8 ''localhost'' \<noteq> ''https://''"
  by (simp add: run_defs)

text \<open>
  C6, amended. For every successful construction the stored access URL is a string:
  the caller's own value, unchanged, when one was supplied, and a string of the shape
  \<^verbatim>\<open>https://<host-prefix>.snowflakecomputing.com\<close> when it was derived.
\<close>

theorem accessUrl_is_string:
  assumes "ConnectionConfig D (JObj options) vc qa ci = Inr (this, options')"
  shows "Util_isString (accessUrl this)
       \<and> (if Util_exists (prop_get options ''accessUrl'')
          then accessUrl this = prop_get options ''accessUrl''
          else \<exists>h. accessUrl this = JStr (''https://'' @ h @ ''.snowflakecomputing.com''))"
proof -
  from ConnectionConfig_Inr [OF assms(1)]
  have ac: "after_credentials vc options = Inr options'"
    and fin: "finish_construction D options' qa ci = Inr (this, options')" by auto
  have url: "accessUrl this = prop_get options' ''accessUrl''"
    using fin by (rule finish_construction_Inr)
  have "accessUrl_block options' = Inr ()"
    using fin by (rule finish_construction_Inr)
  then have str: "Util_isString (prop_get options' ''accessUrl'')"
    by (simp add: accessUrl_block_Inr)
  show ?thesis
  proof (cases "validation_on vc")
    case False
    then have "options' = options" using ac by (simp add: after_credentials_def)
    then show ?thesis using url str by (simp add: isString_exists)
  next
    case True
    then have "credentials_block options = Inr options'"
      using ac by (simp add: after_credentials_def)
    then have der: "derive_accessUrl (split_account options) = Inr options'"
      by (rule credentials_block_Inr)
    show ?thesis
    proof (cases "Util_exists (prop_get options ''accessUrl'')")
      case True
      then have "derive_accessUrl (split_account options) = Inr (split_account options)"
        by (simp add: derive_accessUrl_supplied split_account_accessUrl)
      then have "options' = split_account options" using der by simp
      then show ?thesis using url str True by (simp add: split_account_accessUrl)
    next
      case False
      then have "\<not> Util_exists (prop_get (split_account options) ''accessUrl'')"
        by (simp add: split_account_accessUrl)
      from derive_accessUrl_absent [OF this der]
      show ?thesis using url str False by (auto simp: Util_format_url_def)
    qed
  qed
qed

text \<open>
  C6, amended, at a supplied and at a derived access URL.
\<close>

theorem accessUrl_is_string_witness:
  "accessUrl (fst (projr (ConnectionConfig (spec_deps True [''String''])
        (JObj [(''username'', JStr ''u''), (''password'', JStr ''p''),
               (''account'', JStr ''abc''), (''accessUrl'', JStr ''localhost'')])
        None JUndefined JUndefined))) = JStr ''localhost''
   \<and> Util_isString (accessUrl (fst (projr (ConnectionConfig (spec_deps True [''String''])
        (JObj [(''username'', JStr ''u''), (''password'', JStr ''p''),
               (''account'', JStr ''abc'')])
        None JUndefined JUndefined))))"
proof -
  let ?D = "spec_deps True [''String'']"
  let ?o1 = "[(''username'', JStr ''u''), (''password'', JStr ''p''),
               (''account'', JStr ''abc''), (''accessUrl'', JStr ''localhost'')]"
  let ?o2 = "[(''username'', JStr ''u''), (''password'', JStr ''p''),
               (''account'', JStr ''abc'')]"
  let ?r1 = "ConnectionConfig ?D (JObj ?o1) None JUndefined JUndefined"
  let ?r2 = "ConnectionConfig ?D (JObj ?o2) None JUndefined JUndefined"
  have ok1: "?r1 = Inr (fst (projr ?r1), snd (projr ?r1))" by (simp add: run_defs)
  have ok2: "?r2 = Inr (fst (projr ?r2), snd (projr ?r2))" by (simp add: run_defs)
  have e: "Util_exists (prop_get ?o1 ''accessUrl'')" by (simp add: prop_get_def Util_exists_def)
  have "accessUrl (fst (projr ?r1)) = prop_get ?o1 ''accessUrl''"
    using accessUrl_is_string [OF ok1] e by simp
  moreover have "Util_isString (accessUrl (fst (projr ?r2)))"
    using accessUrl_is_string [OF ok2] by blast
  ultimately show ?thesis by (simp add: prop_get_def)
qed

section \<open>C7: the accessor for a parameter value\<close>

text \<open>
  C7 as stated fails: for a name that is no parameter of the catalog, the accessor of a
  constructed configuration returns \<^verbatim>\<open>undefined\<close>; it throws nothing.
\<close>

theorem getParameterValue_unknown_counterexample:
  "call_getParameterValue ''noSuchParameter''
     (ConnectionConfig (spec_deps True [''String''])
        (JObj [(''username'', JStr ''u''), (''password'', JStr ''p''), (''account'', JStr ''abc'')])
        None JUndefined JUndefined) = Inr JUndefined
   \<and> lookup_parameter (createParameters (spec_deps True [''String''])) ''noSuchParameter'' = None"
  by (simp add: run_defs)

text \<open>
  C7, amended. For every name that is not a parameter of the catalog, the accessor of a
  constructed configuration returns \<^verbatim>\<open>undefined\<close> and raises no error.
\<close>

theorem getParameterValue_unknown_is_undefined:
  assumes "ConnectionConfig D options vc qa ci = Inr (this, options')"
    and "lookup_parameter (createParameters D) n = None"
  shows "getParameterValue this n = Inr JUndefined"
proof -
  from ConnectionConfig_Inr [OF assms(1)]
  have "finish_construction D options' qa ci = Inr (this, options')" by blast
  then have "mapParameters this = resolved_map D options'"
    by (rule finish_construction_Inr)
  then show ?thesis using assms(2)
    by (simp add: getParameterValue_def resolved_map_def)
qed

text \<open>
  C7, amended, at the name \<^verbatim>\<open>retries\<close>.
\<close>

theorem getParameterValue_unknown_is_undefined_witness:
  "\<not> isl (ConnectionConfig (spec_deps True [''String''])
        (JObj [(''username'', JStr ''u''), (''password'', JStr ''p''), (''account'', JStr ''abc'')])
        None JUndefined JUndefined)
   \<and> lookup_parameter (createParameters (spec_deps True [''String''])) ''retries'' = None
   \<and> getParameterValue
     (fst (projr (ConnectionConfig (spec_deps True [''String''])
        (JObj [(''username'', JStr ''u''), (''password'', JStr ''p''), (''account'', JStr ''abc'')])
        None JUndefined JUndefined))) ''retries'' = Inr JUndefined"
proof -
  let ?r = "ConnectionConfig (spec_deps True [''String''])
        (JObj [(''username'', JStr ''u''), (''password'', JStr ''p''), (''account'', JStr ''abc'')])
        None JUndefined JUndefined"
  have ok: "?r = Inr (fst (projr ?r), snd (projr ?r))"
    by (simp add: run_defs)
  have none: "lookup_parameter (createParameters (spec_deps True [''String''])) ''retries'' = None"
    by (simp add: run_defs)
  have "\<not> isl ?r" by (subst ok) simp
  then show ?thesis
    using getParameterValue_unknown_is_undefined [OF ok none] none by simp
qed

section \<open>C8: clearing the credentials\<close>

text \<open>
  C8. \<^verbatim>\<open>clearCredentials()\<close> sets the password to \<^verbatim>\<open>null\<close>; a second call changes
  nothing more; the user name and the access URL are as before the call. This holds of
  every configuration object, so of every constructed one.
\<close>

theorem clearCredentials_clears_password_only:
  "password (clearCredentials this) = JNull
   \<and> clearCredentials (clearCredentials this) = clearCredentials this
   \<and> username (clearCredentials this) = username this
   \<and> accessUrl (clearCredentials this) = accessUrl this"
  by (simp add: clearCredentials_def)

section \<open>C9: the override loop and the catalog\<close>

text \<open>
  C9 as stated fails. The loop of lines 343 to 357 runs over the caller's property names
  and asks \<^verbatim>\<open>options.hasOwnProperty\<close> about each, a lookup on the caller's object under
  a name the catalog does not declare. The options
  \<^verbatim>\<open>{username: "u", password: "p", account: "abc", timeout: 5000, hasOwnProperty: 5}\<close>
  pass every check; the catalog-driven resolution gives \<^verbatim>\<open>timeout\<close> the value 5000; the
  loop finds the caller's 5 where it looks for the method, and the constructor throws a
  \<^verbatim>\<open>TypeError\<close>: no parameter value is computed.
\<close>

theorem override_loop_shadowed_counterexample:
  "ConnectionConfig (spec_deps True [''String''])
     (JObj [(''username'', JStr ''u''), (''password'', JStr ''p''), (''account'', JStr ''abc''),
            (''timeout'', JNum 5000), (''hasOwnProperty'', JNum 5)])
     None JUndefined JUndefined = Inl TypeError
   \<and> map_of (spec_catalog_resolution (createParameters (spec_deps True [''String'']))
        [(''username'', JStr ''u''), (''password'', JStr ''p''), (''account'', JStr ''abc''),
         (''timeout'', JNum 5000), (''hasOwnProperty'', JNum 5)]) ''timeout''
     = Some (JNum 5000)"
  by (simp add: run_defs)

text \<open>
  The same holds of every options object with an own property of that name: no
  configuration is constructed from it, whatever else it holds.
\<close>

lemma shadowed_hasOwnProperty_never_constructs:
  assumes "hasOwnProperty options ''hasOwnProperty''"
  shows "isl (ConnectionConfig D (JObj options) vc qa ci)"
proof (rule ccontr)
  assume "\<not> isl (ConnectionConfig D (JObj options) vc qa ci)"
  then obtain this options' where
    c: "ConnectionConfig D (JObj options) vc qa ci = Inr (this, options')"
    by (cases "ConnectionConfig D (JObj options) vc qa ci") auto
  from ConnectionConfig_Inr [OF c]
  have ac: "after_credentials vc options = Inr options'"
    and fin: "finish_construction D options' qa ci = Inr (this, options')" by auto
  have "\<not> hasOwnProperty options' ''hasOwnProperty''"
    using fin by (rule finish_construction_Inr)
  moreover have "map_of options' ''hasOwnProperty'' = map_of options ''hasOwnProperty''"
    using ac by (rule after_credentials_frame) simp_all
  ultimately show False using assms by (simp add: hasOwnProperty_map_of)
qed

text \<open>
  C9, amended. For every options object that has no own property named
  \<^verbatim>\<open>hasOwnProperty\<close>, the loop over the caller's property names computes what the
  catalog-driven resolution of the specification computes: the loop does not throw, so
  construction never fails with a \<^verbatim>\<open>TypeError\<close>; and whenever a configuration is
  constructed, the accessor of every name returns the value \<open>spec_catalog_resolution\<close>
  lists for it (\<^verbatim>\<open>undefined\<close> for a name the catalog does not declare), and an options
  object with the same bindings, in whatever order its keys enumerate, constructs the
  same configuration.
\<close>

theorem override_loop_refines_catalog_resolution:
  assumes "\<not> hasOwnProperty options ''hasOwnProperty''"
  shows "ConnectionConfig D (JObj options) vc qa ci \<noteq> Inl TypeError
       \<and> (\<forall>this options'.
            ConnectionConfig D (JObj options) vc qa ci = Inr (this, options') \<longrightarrow>
            (\<forall>n. getParameterValue this n =
               Inr (case map_of (spec_catalog_resolution (createParameters D) options) n of
                      Some v \<Rightarrow> v | None \<Rightarrow> JUndefined))
            \<and> (\<forall>reordered. map_of reordered = map_of options \<longrightarrow>
                 constructed (ConnectionConfig D (JObj reordered) vc qa ci) = Inr this))"
proof (intro conjI allI impI)
  show "ConnectionConfig D (JObj options) vc qa ci \<noteq> Inl TypeError"
    using assms ConnectionConfig_TypeError by blast
next
  fix this options' n
  assume c: "ConnectionConfig D (JObj options) vc qa ci = Inr (this, options')"
  show "getParameterValue this n =
      Inr (case map_of (spec_catalog_resolution (createParameters D) options) n of
             Some v \<Rightarrow> v | None \<Rightarrow> JUndefined)"
    by (simp add: getParameterValue_def mapParameters_constructed [OF c]
        spec_catalog_resolution_apply split: option.splits)
next
  fix this options' and reordered :: jsobj
  assume c: "ConnectionConfig D (JObj options) vc qa ci = Inr (this, options')"
  assume "map_of reordered = map_of options"
  then have "constructed (ConnectionConfig D (JObj reordered) vc qa ci) =
      constructed (ConnectionConfig D (JObj options) vc qa ci)"
    by (rule ConnectionConfig_constructed_agree)
  then show "constructed (ConnectionConfig D (JObj reordered) vc qa ci) = Inr this"
    using c by simp
qed

text \<open>
  C9, amended, at options with a valid \<^verbatim>\<open>timeout\<close> and an invalid
  \<^verbatim>\<open>resultPrefetch\<close>, and at the same options in reverse order.
\<close>

theorem override_loop_refines_catalog_resolution_witness:
  "\<not> hasOwnProperty
        [(''timeout'', JNum 5000), (''username'', JStr ''u''), (''password'', JStr ''p''),
         (''account'', JStr ''abc''), (''resultPrefetch'', JNum 0)] ''hasOwnProperty''
   \<and> \<not> isl (ConnectionConfig (spec_deps True [''String''])
        (JObj [(''timeout'', JNum 5000), (''username'', JStr ''u''), (''password'', JStr ''p''),
               (''account'', JStr ''abc''), (''resultPrefetch'', JNum 0)])
        None JUndefined JUndefined)
   \<and> getParameterValue (fst (projr (ConnectionConfig (spec_deps True [''String''])
        (JObj [(''timeout'', JNum 5000), (''username'', JStr ''u''), (''password'', JStr ''p''),
               (''account'', JStr ''abc''), (''resultPrefetch'', JNum 0)])
        None JUndefined JUndefined))) ''timeout'' = Inr (JNum 5000)
   \<and> getParameterValue (fst (projr (ConnectionConfig (spec_deps True [''String''])
        (JObj [(''timeout'', JNum 5000), (''username'', JStr ''u''), (''password'', JStr ''p''),
               (''account'', JStr ''abc''), (''resultPrefetch'', JNum 0)])
        None JUndefined JUndefined))) ''resultPrefetch'' = Inr (JNum 2)
   \<and> constructed (ConnectionConfig (spec_deps True [''String''])
        (JObj [(''resultPrefetch'', JNum 0), (''account'', JStr ''abc''),
               (''password'', JStr ''p''), (''username'', JStr ''u''), (''timeout'', JNum 5000)])
        None JUndefined JUndefined)
     = constructed (ConnectionConfig (spec_deps True [''String''])
        (JObj [(''timeout'', JNum 5000), (''username'', JStr ''u''), (''password'', JStr ''p''),
               (''account'', JStr ''abc''), (''resultPrefetch'', JNum 0)])
        None JUndefined JUndefined)"
proof -
  let ?D = "spec_deps True [''String'']"
  let ?o = "[(''timeout'', JNum 5000), (''username'', JStr ''u''), (''password'', JStr ''p''),
               (''account'', JStr ''abc''), (''resultPrefetch'', JNum 0)]"
  let ?o' = "[(''resultPrefetch'', JNum 0), (''account'', JStr ''abc''),
               (''password'', JStr ''p''), (''username'', JStr ''u''), (''timeout'', JNum 5000)]"
  let ?r = "ConnectionConfig ?D (JObj ?o) None JUndefined JUndefined"
  have ns: "\<not> hasOwnProperty ?o ''hasOwnProperty''" by (simp add: hasOwnProperty_def)
  have ok: "?r = Inr (fst (projr ?r), snd (projr ?r))" by (simp add: run_defs)
  have same: "map_of ?o' = map_of ?o" by (rule ext) simp
  note T = override_loop_refines_catalog_resolution [OF ns, of ?D None JUndefined JUndefined]
  have 0: "\<not> isl ?r" by (subst ok) simp
  have 1: "getParameterValue (fst (projr ?r)) ''timeout'' =
      Inr (case map_of (spec_catalog_resolution (createParameters ?D) ?o) ''timeout'' of
             Some v \<Rightarrow> v | None \<Rightarrow> JUndefined)"
    using T ok by blast
  have 2: "getParameterValue (fst (projr ?r)) ''resultPrefetch'' =
      Inr (case map_of (spec_catalog_resolution (createParameters ?D) ?o) ''resultPrefetch'' of
             Some v \<Rightarrow> v | None \<Rightarrow> JUndefined)"
    using T ok by blast
  have 3: "constructed (ConnectionConfig ?D (JObj ?o') None JUndefined JUndefined) =
      Inr (fst (projr ?r))"
    using T ok same by blast
  have 4: "constructed ?r = Inr (fst (projr ?r))" using ok by (rule constructed_Inr)
  have v1: "(case map_of (spec_catalog_resolution (createParameters ?D) ?o) ''timeout'' of
             Some v \<Rightarrow> v | None \<Rightarrow> JUndefined) = JNum 5000"
    by (simp add: createParameters_def entry_def param_names spec_deps_def hasOwnProperty_def
        prop_get_def)
  have v2: "(case map_of (spec_catalog_resolution (createParameters ?D) ?o) ''resultPrefetch'' of
             Some v \<Rightarrow> v | None \<Rightarrow> JUndefined) = JNum 2"
    by (simp add: createParameters_def entry_def param_names spec_deps_def hasOwnProperty_def
        prop_get_def)
  show ?thesis using ns 0 1 2 3 4 unfolding v1 v2 by simp
qed

section \<open>C10: a dotted account beside a supplied access URL\<close>

text \<open>
  C10. With validation on and an access URL supplied, an account whose first dot is
  neither first nor last is still split: the stored account is the part before the dot,
  and the region of the options object is the part after it, whatever the caller gave as
  region.
\<close>

theorem dotted_account_split_with_accessUrl:
  assumes "ConnectionConfig D (JObj options) vc qa ci = Inr (this, options')"
    and "validation_on vc"
    and "prop_get options ''account'' = JStr a"
    and "splits_at a p"
    and "Util_exists (prop_get options ''accessUrl'')"
  shows "account this = JStr (take p a) \<and> prop_get options' ''region'' = JStr (drop (Suc p) a)"
proof -
  from ConnectionConfig_Inr [OF assms(1)]
  have ac: "after_credentials vc options = Inr options'"
    and fin: "finish_construction D options' qa ci = Inr (this, options')" by auto
  have acc: "account this = prop_get options' ''account''"
    using fin by (rule finish_construction_Inr)
  have "credentials_block options = Inr options'"
    using ac assms(2) by (simp add: after_credentials_def)
  then have der: "derive_accessUrl (split_account options) = Inr options'"
    by (rule credentials_block_Inr)
  have "derive_accessUrl (split_account options) = Inr (split_account options)"
    using assms(5) by (simp add: derive_accessUrl_supplied split_account_accessUrl)
  then have "options' = split_account options" using der by simp
  then have "options' =
      prop_set (prop_set options ''region'' (JStr (drop (Suc p) a))) ''account'' (JStr (take p a))"
    using assms(3,4) by (simp add: split_account_at)
  then show ?thesis using acc by (simp add: prop_get_set)
qed

text \<open>
  C10 at the account \<^verbatim>\<open>abc.eu-central-1\<close> beside the region \<^verbatim>\<open>ap-south-1\<close> and a
  supplied access URL.
\<close>

theorem dotted_account_split_with_accessUrl_witness:
  "splits_at ''abc.eu-central-1'' 3
   \<and> account (fst (projr (ConnectionConfig (spec_deps True [''String''])
        (JObj [(''username'', JStr ''u''), (''password'', JStr ''p''),
               (''account'', JStr ''abc.eu-central-1''), (''region'', JStr ''ap-south-1''),
               (''accessUrl'', JStr ''https://example.test'')])
        None JUndefined JUndefined))) = JStr ''abc''
   \<and> prop_get (snd (projr (ConnectionConfig (spec_deps True [''String''])
        (JObj [(''username'', JStr ''u''), (''password'', JStr ''p''),
               (''account'', JStr ''abc.eu-central-1''), (''region'', JStr ''ap-south-1''),
               (''accessUrl'', JStr ''https://example.test'')])
        None JUndefined JUndefined))) ''region'' = JStr ''eu-central-1''"
proof -
  let ?D = "spec_deps True [''String'']"
  let ?o = "[(''username'', JStr ''u''), (''password'', JStr ''p''),
               (''account'', JStr ''abc.eu-central-1''), (''region'', JStr ''ap-south-1''),
               (''accessUrl'', JStr ''https://example.test'')]"
  let ?r = "ConnectionConfig ?D (JObj ?o) None JUndefined JUndefined"
  have ok: "?r = Inr (fst (projr ?r), snd (projr ?r))" by (simp add: run_defs)
  have sp: "splits_at ''abc.eu-central-1'' 3"
    by (simp add: splits_at_def first_dot_at_def)
  have a: "prop_get ?o ''account'' = JStr ''abc.eu-central-1''" by (simp add: prop_get_def)
  have u: "Util_exists (prop_get ?o ''accessUrl'')" by (simp add: prop_get_def Util_exists_def)
  have v: "validation_on None" by (simp add: validation_on_def)
  show ?thesis
    using dotted_account_split_with_accessUrl [OF ok v a sp u] sp by simp
qed

end
